theory Spec2Isabelle
  imports Complex_Main
begin

section \<open>Strings and numbers of the source\<close>

text \<open>
  A JavaScript string is a sequence of UTF-16 code units; it is modelled as the list of
  those code units. \<open>startsWith\<close>, \<open>trim\<close>, \<open>+\<close> and template literals then
  are exactly list operations. Every Thai letter the source uses lies in the basic
  plane (one code unit each, U+0E01 .. U+0E4C).
  A JavaScript number is modelled as a real; rounding and NaN are outside the model.
\<close>

type_synonym jsstring = "nat list"

definition ascii :: "string \<Rightarrow> jsstring" where
  "ascii s = map of_char s"

text \<open>The decimal rendering of a natural number, as a template literal prints an index.\<close>

function decimal :: "nat \<Rightarrow> jsstring" where
  "decimal n = (if n < 10 then [48 + n] else decimal (n div 10) @ [48 + n mod 10])"
  by pat_completeness auto
termination
  by (relation "measure id") auto

declare decimal.simps [simp del]

fun startsWith :: "jsstring \<Rightarrow> jsstring \<Rightarrow> bool" where
  "startsWith s [] = True"
| "startsWith [] (p # ps) = False"
| "startsWith (c # cs) (p # ps) = (c = p \<and> startsWith cs ps)"

text \<open>\<open>x || d\<close> on an optional string: \<open>undefined\<close> and the empty string are falsy.\<close>

definition orElse :: "jsstring option \<Rightarrow> jsstring \<Rightarrow> jsstring" where
  "orElse x d = (case x of None \<Rightarrow> d | Some s \<Rightarrow> if s = [] then d else s)"

subsection \<open>String constants of App.tsx\<close>

text \<open>"khlang sinkha (Start)": the fixed depot label.\<close>

definition DEPOT_NAME :: jsstring where
  "DEPOT_NAME = [0xE04, 0xE25, 0xE31, 0xE07, 0xE2A, 0xE34, 0xE19, 0xE04, 0xE49, 0xE32,
     0x20, 0x28, 0x53, 0x74, 0x61, 0x72, 0x74, 0x29]"

text \<open>"chut song sinkha": the prefix of an auto-numbered stop label.\<close>

definition STOP_PREFIX :: jsstring where
  "STOP_PREFIX = [0xE08, 0xE38, 0xE14, 0xE2A, 0xE48, 0xE07, 0xE2A, 0xE34, 0xE19, 0xE04,
     0xE49, 0xE32]"

text \<open>The template \<open>`<STOP_PREFIX> ${n}`\<close>.\<close>

definition stopLabel :: "nat \<Rightarrow> jsstring" where
  "stopLabel n = STOP_PREFIX @ [0x20] @ decimal n"

text \<open>"thuapai": the zone of a stop placed by a map click.\<close>

definition ZONE_GENERAL :: jsstring where
  "ZONE_GENERAL = [0xE17, 0xE31, 0xE48, 0xE27, 0xE44, 0xE1B]"

text \<open>The message shown when the thirty-stop limit is reached.\<close>

definition LIMIT_MESSAGE :: jsstring where
  "LIMIT_MESSAGE = [0xE40, 0xE1E, 0xE34, 0xE48, 0xE21, 0xE08, 0xE38, 0xE14, 0xE2A, 0xE48,
     0xE07, 0xE44, 0xE14, 0xE49, 0xE2A, 0xE39, 0xE07, 0xE2A, 0xE38, 0xE14, 0x20, 0x33, 0x30,
     0x20, 0xE08, 0xE38, 0xE14, 0x20, 0xE40, 0xE1E, 0xE37, 0xE48, 0xE2D, 0xE1B, 0xE23, 0xE30,
     0xE2A, 0xE34, 0xE17, 0xE18, 0xE34, 0xE20, 0xE32, 0xE1E, 0xE2A, 0xE39, 0xE07, 0xE2A,
     0xE38, 0xE14]"

text \<open>The prefix of a failed calculation's message, and the default text after it.\<close>

definition CALC_FAILED :: jsstring where
  "CALC_FAILED = [0xE44, 0xE21, 0xE48, 0xE2A, 0xE32, 0xE21, 0xE32, 0xE23, 0xE16, 0xE04,
     0xE33, 0xE19, 0xE27, 0xE13, 0xE40, 0xE2A, 0xE49, 0xE19, 0xE17, 0xE32, 0xE07, 0xE44,
     0xE14, 0xE49, 0x3A, 0x20]"

definition CALC_DEFAULT :: jsstring where
  "CALC_DEFAULT = [0xE40, 0xE01, 0xE34, 0xE14, 0xE02, 0xE49, 0xE2D, 0xE1C, 0xE34, 0xE14,
     0xE1E, 0xE25, 0xE32, 0xE14, 0xE08, 0xE32, 0xE01, 0xE23, 0xE30, 0xE1A, 0xE1A, 0x20,
     0x41, 0x49]"

text \<open>The texts of the order import: its two errors, the label of an order without a
  customer name, and the marker of an address that was not found.\<close>

definition NO_ORDERS :: jsstring where
  "NO_ORDERS = [0xE44, 0xE21, 0xE48, 0xE1E, 0xE1A, 0xE02, 0xE49, 0xE2D, 0xE21, 0xE39,
     0xE25, 0xE2D, 0xE2D, 0xE40, 0xE14, 0xE2D, 0xE23, 0xE4C, 0xE43, 0xE19, 0xE02, 0xE49,
     0xE2D, 0xE04, 0xE27, 0xE32, 0xE21]"

definition IMPORT_FAILED :: jsstring where
  "IMPORT_FAILED = [0xE01, 0xE32, 0xE23, 0xE19, 0xE33, 0xE40, 0xE02, 0xE49, 0xE32, 0xE02,
     0xE49, 0xE2D, 0xE21, 0xE39, 0xE25, 0xE25, 0xE49, 0xE21, 0xE40, 0xE2B, 0xE25, 0xE27,
     0x3A, 0x20]"

definition orderLabel :: "nat \<Rightarrow> jsstring" where
  "orderLabel n = [0xE08, 0xE38, 0xE14, 0xE2A, 0xE48, 0xE07, 0x20] @ decimal n"

definition UNRESOLVED_MARK :: jsstring where
  "UNRESOLVED_MARK = [0x20, 0x28, 0xE44, 0xE21, 0xE48, 0xE1E, 0xE1A, 0xE1E, 0xE34, 0xE01,
     0xE31, 0xE14, 0x29]"

section \<open>Data model (types.ts)\<close>

record Coordinates =
  lat :: real
  lng :: real

datatype delivery_status = Pending | Delivered | Failed

text \<open>Optional properties are options; \<open>isDepot\<close> is read by truthiness, so a stop is
  a depot exactly when the flag is \<open>Some True\<close>.\<close>

record DeliveryLocation =
  id' :: jsstring
  name :: jsstring
  coordinates :: Coordinates
  address :: "jsstring option"
  isDepot :: "bool option"
  customerName :: "jsstring option"
  phoneNumber :: "jsstring option"
  zone :: "jsstring option"
  status :: "delivery_status option"

datatype VehicleType = PICKUP_CLOSED | PICKUP_OPEN | TRUCK_6W

record OptimizedRouteStats =
  totalDistanceKm :: real
  totalTimeMinutes :: real
  fuelCostTHB :: real
  tollCostTHB :: real
  totalCostTHB :: real
  advice :: jsstring
  statsVehicleType :: "VehicleType option"

record RouteSegment =
  fromId :: jsstring
  toId :: jsstring
  distanceKm :: real
  timeMinutes :: real

record Maneuver =
  mtype :: jsstring
  modifier :: "jsstring option"

record NavigationStep =
  instruction :: jsstring
  distanceMeters :: real
  durationSeconds :: real
  maneuver :: Maneuver

text \<open>The declared type makes \<open>optimizedOrder\<close> mandatory, but the value comes from
  \<open>JSON.parse\<close> and the code tests it for presence, so it is optional here.\<close>

record RouteOptimizationResult =
  optimizedOrder :: "jsstring list option"
  segments :: "RouteSegment list"
  stats :: OptimizedRouteStats
  pathPolyline :: "Coordinates list option"
  navigationInstructions :: "NavigationStep list option"

section \<open>The state of the App component\<close>

record app_state =
  locations :: "DeliveryLocation list"
  optimizedRoute :: "RouteOptimizationResult option"
  vehicleType :: VehicleType
  isCalculating :: bool
  importingStatus :: "jsstring option"
  selectedId :: "jsstring option"
  error :: "jsstring option"

definition truthy :: "bool option \<Rightarrow> bool" where
  "truthy b = (b = Some True)"

subsection \<open>handleMapClick\<close>

text \<open>\<open>newId\<close> is the value \<open>generateId()\<close> returns for this click.\<close>

definition handleMapClick :: "jsstring \<Rightarrow> Coordinates \<Rightarrow> app_state \<Rightarrow> app_state" where
  "handleMapClick newId coords st =
     (if length (locations st) \<ge> 30 then st\<lparr>error := Some LIMIT_MESSAGE\<rparr>
      else
        let isFirst = (length (locations st) = 0);
            newLocation = \<lparr>id' = newId,
              name = (if isFirst then DEPOT_NAME else stopLabel (length (locations st))),
              coordinates = coords,
              address = None,
              isDepot = Some isFirst,
              customerName = None,
              phoneNumber = None,
              zone = Some (if isFirst then ascii ''HQ'' else ZONE_GENERAL),
              status = None\<rparr>
        in st\<lparr>locations := locations st @ [newLocation],
              selectedId := Some newId,
              optimizedRoute := None,
              error := None\<rparr>)"

subsection \<open>handleRemoveLocation\<close>

text \<open>The first remaining stop is promoted when the stop removed was the first of the
  list (\<open>locations[0].id === id\<close>); the test is only evaluated when something remains,
  so the list it indexes is not empty.\<close>

definition promote :: "DeliveryLocation list \<Rightarrow> jsstring \<Rightarrow> DeliveryLocation list
    \<Rightarrow> DeliveryLocation list" where
  "promote locs rid newLocations =
     (case newLocations of
        [] \<Rightarrow> []
      | l # ls \<Rightarrow>
          (case locs of
             [] \<Rightarrow> l # ls
           | l0 # _ \<Rightarrow>
               if id' l0 = rid then l\<lparr>isDepot := Some True, name := DEPOT_NAME\<rparr> # ls
               else l # ls))"

text \<open>The callback of \<open>newLocations.map((loc, idx) => ...)\<close>.\<close>

definition renumber :: "nat \<Rightarrow> DeliveryLocation \<Rightarrow> DeliveryLocation" where
  "renumber idx loc =
     (if truthy (isDepot loc) then loc
      else if startsWith (name loc) STOP_PREFIX then loc\<lparr>name := stopLabel idx\<rparr>
      else loc)"

definition removeLocation :: "DeliveryLocation list \<Rightarrow> jsstring \<Rightarrow> DeliveryLocation list" where
  "removeLocation locs rid =
     (let newLocations = filter (\<lambda>l. id' l \<noteq> rid) locs
      in map (\<lambda>(idx, loc). renumber idx loc) (enumerate 0 (promote locs rid newLocations)))"

definition handleRemoveLocation :: "jsstring \<Rightarrow> app_state \<Rightarrow> app_state" where
  "handleRemoveLocation rid st =
     st\<lparr>locations := removeLocation (locations st) rid,
        optimizedRoute := None,
        selectedId := (if selectedId st = Some rid then None else selectedId st)\<rparr>"

subsection \<open>handleReset\<close>

text \<open>\<open>confirmed\<close> is the answer of \<open>window.confirm\<close>.\<close>

definition handleReset :: "bool \<Rightarrow> app_state \<Rightarrow> app_state" where
  "handleReset confirmed st =
     (if confirmed
      then st\<lparr>locations := [], optimizedRoute := None, error := None, selectedId := None\<rparr>
      else st)"

subsection \<open>handleImportOrders\<close>

text \<open>An order as the text-extraction service returns it.\<close>

record ParsedOrder =
  order_customerName :: "jsstring option"
  order_phoneNumber :: "jsstring option"
  order_address :: "jsstring option"
  order_zone :: "jsstring option"

text \<open>What \<open>parseOrdersWithGemini\<close> does: it throws (the value thrown has an optional
  \<open>message\<close>) or returns the array of orders.\<close>

datatype parse_reply = ParseThrows "jsstring option" | ParsedOrders "ParsedOrder list"

text \<open>What the geocoding request of one order does: \<open>fetch\<close> or \<open>response.json()\<close>
  throws, or the body is read. The body is kept as the list of its entries' parsed
  \<open>lat\<close>/\<open>lon\<close>; a body that is \<open>null\<close> or has no positive \<open>length\<close> is the empty
  list.\<close>

datatype geocode_reply = GeocodeThrows | GeocodeData "Coordinates list"

text \<open>The outside world of one import, indexed by the loop counter \<open>i\<close>: the reply to
  the request for order \<open>i\<close>, the identifier \<open>generateId()\<close> returns while order \<open>i\<close> is
  handled, and the two values of \<open>Math.random()\<close> drawn there (latitude first).\<close>

record import_env =
  geocode :: "nat \<Rightarrow> geocode_reply"
  generateId :: "nat \<Rightarrow> jsstring"
  random :: "nat \<Rightarrow> real \<times> real"

text \<open>The body of the loop: the stop pushed for order \<open>i\<close>, or none when the request
  throws (the \<open>catch\<close> only logs).\<close>

definition geocodeOrder :: "import_env \<Rightarrow> bool \<Rightarrow> nat \<Rightarrow> ParsedOrder
    \<Rightarrow> DeliveryLocation option" where
  "geocodeOrder env isFirst i order =
     (let isDepot = (isFirst \<and> i = 0) in
      case geocode env i of
        GeocodeThrows \<Rightarrow> None
      | GeocodeData data \<Rightarrow>
          (case data of
             d0 # _ \<Rightarrow> Some \<lparr>id' = generateId env i,
               name = orElse (order_customerName order) (orderLabel (i + 1)),
               coordinates = \<lparr>lat = lat d0, lng = lng d0\<rparr>,
               address = order_address order,
               isDepot = Some isDepot,
               customerName = order_customerName order,
               phoneNumber = order_phoneNumber order,
               zone = order_zone order,
               status = None\<rparr>
           | [] \<Rightarrow> Some \<lparr>id' = generateId env i,
               name = orElse (order_customerName order) (ascii ''Unknown'') @ UNRESOLVED_MARK,
               coordinates = \<lparr>lat = 137563 / 10000 + fst (random env i) * (1 / 100),
                              lng = 1005018 / 10000 + snd (random env i) * (1 / 100)\<rparr>,
               address = order_address order,
               isDepot = Some isDepot,
               customerName = order_customerName order,
               phoneNumber = order_phoneNumber order,
               zone = Some (ascii ''Unresolved''),
               status = None\<rparr>))"

text \<open>The loop \<open>for (let i = 0; i < parsedOrders.length; i++)\<close> over the orders still to
  handle, with the counter and the array \<open>newLocations\<close> built so far.\<close>

fun importLoop :: "import_env \<Rightarrow> bool \<Rightarrow> ParsedOrder list \<Rightarrow> nat \<Rightarrow> DeliveryLocation list
    \<Rightarrow> DeliveryLocation list" where
  "importLoop env isFirst [] i newLocations = newLocations"
| "importLoop env isFirst (order # rest) i newLocations =
     importLoop env isFirst rest (Suc i)
       (case geocodeOrder env isFirst i order of
          None \<Rightarrow> newLocations
        | Some l \<Rightarrow> newLocations @ [l])"

text \<open>\<open>"..." + err.message\<close>: a missing message prints as \<open>undefined\<close>.\<close>

definition messageText :: "jsstring option \<Rightarrow> jsstring" where
  "messageText m = (case m of None \<Rightarrow> ascii ''undefined'' | Some s \<Rightarrow> s)"

text \<open>The state after the handler has run to its end. The stops are appended to the
  latest list, which is the list the handler started from: the overlay shown while
  \<open>importingStatus\<close> is set takes every click.\<close>

definition handleImportOrders :: "parse_reply \<Rightarrow> import_env \<Rightarrow> app_state \<Rightarrow> app_state" where
  "handleImportOrders parsed env st =
     (case parsed of
        ParseThrows m \<Rightarrow>
          st\<lparr>error := Some (IMPORT_FAILED @ messageText m), importingStatus := None\<rparr>
      | ParsedOrders parsedOrders \<Rightarrow>
          if length parsedOrders = 0
          then st\<lparr>error := Some (IMPORT_FAILED @ NO_ORDERS), importingStatus := None\<rparr>
          else
            let isFirst = (length (locations st) = 0);
                newLocations = importLoop env isFirst parsedOrders 0 []
            in st\<lparr>locations := locations st @ newLocations, importingStatus := None\<rparr>)"

subsection \<open>The initial state (the useState initialisers)\<close>

text \<open>What \<open>localStorage.getItem\<close> does: it throws, returns \<open>null\<close>, or returns the
  stored text.\<close>

datatype storage_read = GetItemThrows | NoItem | Item jsstring

text \<open>The record stored under the key; a property that is absent or falsy is \<open>None\<close>.\<close>

record SavedData =
  saved_locations :: "DeliveryLocation list option"
  saved_optimizedRoute :: "RouteOptimizationResult option"

text \<open>What \<open>JSON.parse\<close> does with a text: it throws a SyntaxError, returns \<open>null\<close>
  (reading a property of it throws), or returns a value whose properties can be read.
  The parser itself is a parameter of the initialisers.\<close>

datatype parsed_json = SyntaxError | JsonNull | JsonValue SavedData

text \<open>The \<open>try\<close> block of an initialiser: \<open>Inl\<close> when it throws, \<open>Inr (Some v)\<close> when it
  returns \<open>v\<close>, \<open>Inr None\<close> when control leaves it without a return.\<close>

definition tryLoad :: "(jsstring \<Rightarrow> parsed_json) \<Rightarrow> storage_read \<Rightarrow> (SavedData \<Rightarrow> 'a option)
    \<Rightarrow> 'a \<Rightarrow> unit + 'a option" where
  "tryLoad JSON_parse stored property dflt =
     (case stored of
        GetItemThrows \<Rightarrow> Inl ()
      | NoItem \<Rightarrow> Inr None
      | Item savedData \<Rightarrow>
          if savedData = [] then Inr None
          else (case JSON_parse savedData of
                  SyntaxError \<Rightarrow> Inl ()
                | JsonNull \<Rightarrow> Inl ()
                | JsonValue v \<Rightarrow>
                    Inr (Some (case property v of None \<Rightarrow> dflt | Some x \<Rightarrow> x))))"

text \<open>The initialiser: the \<open>catch\<close> logs a warning and control reaches the final
  \<open>return\<close> of the default.\<close>

definition initialise :: "(jsstring \<Rightarrow> parsed_json) \<Rightarrow> storage_read \<Rightarrow> (SavedData \<Rightarrow> 'a option)
    \<Rightarrow> 'a \<Rightarrow> 'a" where
  "initialise JSON_parse stored property dflt =
     (case tryLoad JSON_parse stored property dflt of
        Inl _ \<Rightarrow> dflt
      | Inr None \<Rightarrow> dflt
      | Inr (Some v) \<Rightarrow> v)"

definition initialState :: "(jsstring \<Rightarrow> parsed_json) \<Rightarrow> storage_read \<Rightarrow> app_state" where
  "initialState JSON_parse stored =
     \<lparr>locations = initialise JSON_parse stored saved_locations [],
      optimizedRoute =
        initialise JSON_parse stored (\<lambda>v. map_option Some (saved_optimizedRoute v)) None,
      vehicleType = PICKUP_CLOSED,
      isCalculating = False,
      importingStatus = None,
      selectedId = None,
      error = None\<rparr>"

section \<open>The route service (geminiService.ts)\<close>

subsection \<open>String constants\<close>

definition OSRM_SERVERS :: "jsstring list" where
  "OSRM_SERVERS = [ascii ''https://router.project-osrm.org/route/v1/driving'',
     ascii ''https://routing.openstreetmap.de/routed-car/route/v1/driving'']"

text \<open>The message of the error thrown for fewer than two stops.\<close>

definition NEED_TWO_STOPS :: jsstring where
  "NEED_TWO_STOPS = [0xE15, 0xE49, 0xE2D, 0xE07, 0xE21, 0xE35, 0xE08, 0xE38, 0xE14, 0xE2A,
     0xE48, 0xE07, 0xE2A, 0xE34, 0xE19, 0xE04, 0xE49, 0xE32, 0xE2D, 0xE22, 0xE48, 0xE32,
     0xE07, 0xE19, 0xE49, 0xE2D, 0xE22, 0x20, 0x32, 0x20, 0xE08, 0xE38, 0xE14, 0xE40, 0xE1E,
     0xE37, 0xE48, 0xE2D, 0xE04, 0xE33, 0xE19, 0xE27, 0xE13, 0xE40, 0xE2A, 0xE49, 0xE19,
     0xE17, 0xE32, 0xE07]"

text \<open>The template \<open>`<arrived at stop> ${n}`\<close> of the synthetic step.\<close>

definition arrivedLabel :: "nat \<Rightarrow> jsstring" where
  "arrivedLabel n = [0xE16, 0xE36, 0xE07, 0xE08, 0xE38, 0xE14, 0xE2A, 0xE48, 0xE07, 0xE2A,
     0xE34, 0xE19, 0xE04, 0xE49, 0xE32, 0xE17, 0xE35, 0xE48, 0x20] @ decimal n"

text \<open>The phrases of \<open>translateManeuver\<close>: "enter", "start the journey", "destination
  reached", "at the roundabout take exit", and the eight modifiers.\<close>

definition TXT_ENTER :: jsstring where
  "TXT_ENTER = [0xE40, 0xE02, 0xE49, 0xE32, 0xE2A, 0xE39, 0xE48, 0x20]"

definition TXT_DEPART :: jsstring where
  "TXT_DEPART = [0xE40, 0xE23, 0xE34, 0xE48, 0xE21, 0xE15, 0xE49, 0xE19, 0xE40, 0xE14,
     0xE34, 0xE19, 0xE17, 0xE32, 0xE07, 0x20]"

definition TXT_ARRIVE :: jsstring where
  "TXT_ARRIVE = [0xE16, 0xE36, 0xE07, 0xE08, 0xE38, 0xE14, 0xE2B, 0xE21, 0xE32, 0xE22]"

definition TXT_ROUNDABOUT :: jsstring where
  "TXT_ROUNDABOUT = [0xE17, 0xE35, 0xE48, 0xE27, 0xE07, 0xE40, 0xE27, 0xE35, 0xE22, 0xE19,
     0x20, 0xE43, 0xE0A, 0xE49, 0xE17, 0xE32, 0xE07, 0xE2D, 0xE2D, 0xE01, 0x20]"

definition TXT_LEFT :: jsstring where
  "TXT_LEFT = [0xE40, 0xE25, 0xE35, 0xE49, 0xE22, 0xE27, 0xE0B, 0xE49, 0xE32, 0xE22, 0x20]"

definition TXT_RIGHT :: jsstring where
  "TXT_RIGHT = [0xE40, 0xE25, 0xE35, 0xE49, 0xE22, 0xE27, 0xE02, 0xE27, 0xE32, 0x20]"

definition TXT_SLIGHT_LEFT :: jsstring where
  "TXT_SLIGHT_LEFT = [0xE40, 0xE1A, 0xE35, 0xE48, 0xE22, 0xE07, 0xE0B, 0xE49, 0xE32, 0xE22,
     0xE40, 0xE25, 0xE47, 0xE01, 0xE19, 0xE49, 0xE2D, 0xE22, 0x20]"

definition TXT_SLIGHT_RIGHT :: jsstring where
  "TXT_SLIGHT_RIGHT = [0xE40, 0xE1A, 0xE35, 0xE48, 0xE22, 0xE07, 0xE02, 0xE27, 0xE32, 0xE40,
     0xE25, 0xE47, 0xE01, 0xE19, 0xE49, 0xE2D, 0xE22, 0x20]"

definition TXT_SHARP_LEFT :: jsstring where
  "TXT_SHARP_LEFT = [0xE40, 0xE25, 0xE35, 0xE49, 0xE22, 0xE27, 0xE0B, 0xE49, 0xE32, 0xE22,
     0xE2B, 0xE31, 0xE01, 0xE28, 0xE2D, 0xE01, 0x20]"

definition TXT_SHARP_RIGHT :: jsstring where
  "TXT_SHARP_RIGHT = [0xE40, 0xE25, 0xE35, 0xE49, 0xE22, 0xE27, 0xE02, 0xE27, 0xE32, 0xE2B,
     0xE31, 0xE01, 0xE28, 0xE2D, 0xE01, 0x20]"

definition TXT_UTURN :: jsstring where
  "TXT_UTURN = [0xE01, 0xE25, 0xE31, 0xE1A, 0xE23, 0xE16]"

definition TXT_STRAIGHT :: jsstring where
  "TXT_STRAIGHT = [0xE15, 0xE23, 0xE07, 0xE44, 0xE1B, 0x20]"

subsection \<open>translateManeuver\<close>

text \<open>\<open>String.prototype.trim\<close> strips the white space and line terminators of
  ECMAScript from both ends.\<close>

definition isWhiteSpace :: "nat \<Rightarrow> bool" where
  "isWhiteSpace c =
     (c \<in> {0x9, 0xA, 0xB, 0xC, 0xD, 0x20, 0xA0, 0x1680, 0x2028, 0x2029, 0x202F, 0x205F,
            0x3000, 0xFEFF}
      \<or> (0x2000 \<le> c \<and> c \<le> 0x200A))"

definition trim :: "jsstring \<Rightarrow> jsstring" where
  "trim s = rev (dropWhile isWhiteSpace (rev (dropWhile isWhiteSpace s)))"

definition translateManeuver :: "jsstring \<Rightarrow> jsstring option \<Rightarrow> jsstring \<Rightarrow> jsstring" where
  "translateManeuver type' modifier' name' =
     (let roadName = (if name' \<noteq> [] then TXT_ENTER @ name' else []) in
      if type' = ascii ''depart'' then TXT_DEPART @ roadName
      else if type' = ascii ''arrive'' then TXT_ARRIVE
      else if type' = ascii ''roundabout''
        then TXT_ROUNDABOUT @ orElse modifier' [] @ [0x20] @ roadName
      else if modifier' = Some (ascii ''left'') then TXT_LEFT @ roadName
      else if modifier' = Some (ascii ''right'') then TXT_RIGHT @ roadName
      else if modifier' = Some (ascii ''slight left'') then TXT_SLIGHT_LEFT @ roadName
      else if modifier' = Some (ascii ''slight right'') then TXT_SLIGHT_RIGHT @ roadName
      else if modifier' = Some (ascii ''sharp left'') then TXT_SHARP_LEFT @ roadName
      else if modifier' = Some (ascii ''sharp right'') then TXT_SHARP_RIGHT @ roadName
      else if modifier' = Some (ascii ''uturn'') then TXT_UTURN
      else if modifier' = Some (ascii ''straight'') then TXT_STRAIGHT @ roadName
      else trim (type' @ [0x20] @ roadName))"

subsection \<open>fetchRouteData\<close>

text \<open>The body of a routing reply, as far as the code reads it. The properties the code
  tests before use (\<open>routes\<close>, \<open>legs\<close>, \<open>steps\<close>) are optional; a position of the
  geometry is the pair (longitude, latitude).\<close>

record OsrmStep =
  step_maneuver :: Maneuver
  step_name :: jsstring
  step_distance :: real
  step_duration :: real

record OsrmLeg =
  leg_steps :: "OsrmStep list option"

record OsrmRoute =
  route_geometry :: "(real \<times> real) list"
  route_legs :: "OsrmLeg list option"

record OsrmData =
  code :: jsstring
  routes :: "OsrmRoute list option"

text \<open>What the attempt on one mirror does: something in the inner \<open>try\<close> throws (the
  request, the reading of the body, or a property missing from it), the response is
  not \<open>ok\<close>, or the body is read.\<close>

datatype osrm_reply = FetchThrows | HttpNotOk | HttpOk OsrmData

record RouteData =
  geometry :: "Coordinates list"
  steps :: "NavigationStep list"

definition toNavigationStep :: "OsrmStep \<Rightarrow> NavigationStep" where
  "toNavigationStep s =
     \<lparr>instruction = translateManeuver (mtype (step_maneuver s)) (modifier (step_maneuver s))
                      (step_name s),
      distanceMeters = step_distance s,
      durationSeconds = step_duration s,
      maneuver = step_maneuver s\<rparr>"

definition arrivedStep :: "nat \<Rightarrow> NavigationStep" where
  "arrivedStep legIndex =
     \<lparr>instruction = arrivedLabel (legIndex + 1),
      distanceMeters = 0,
      durationSeconds = 0,
      maneuver = \<lparr>mtype = ascii ''arrive'', modifier = None\<rparr>\<rparr>"

text \<open>The callback of \<open>route.legs.forEach((leg, legIndex) => ...)\<close>, from \<open>allSteps\<close>
  before the call to \<open>allSteps\<close> after it; \<open>n\<close> is \<open>route.legs.length\<close>.\<close>

definition legCallback :: "nat \<Rightarrow> OsrmLeg \<Rightarrow> nat \<Rightarrow> NavigationStep list \<Rightarrow> NavigationStep list"
  where
  "legCallback n leg legIndex allSteps =
     (case leg_steps leg of
        None \<Rightarrow> allSteps
      | Some ss \<Rightarrow>
          (let legSteps = map toNavigationStep ss;
               allSteps' = allSteps @ legSteps
           in if int legIndex < int n - 1 then allSteps' @ [arrivedStep legIndex]
              else allSteps'))"

fun forEachLeg :: "nat \<Rightarrow> OsrmLeg list \<Rightarrow> nat \<Rightarrow> NavigationStep list \<Rightarrow> NavigationStep list"
  where
  "forEachLeg n [] legIndex allSteps = allSteps"
| "forEachLeg n (leg # rest) legIndex allSteps =
     forEachLeg n rest (Suc legIndex) (legCallback n leg legIndex allSteps)"

definition routeSteps :: "OsrmRoute \<Rightarrow> NavigationStep list" where
  "routeSteps route =
     (case route_legs route of
        None \<Rightarrow> []
      | Some legs \<Rightarrow> forEachLeg (length legs) legs 0 [])"

definition routeGeometry :: "OsrmRoute \<Rightarrow> Coordinates list" where
  "routeGeometry route = map (\<lambda>c. \<lparr>lat = snd c, lng = fst c\<rparr>) (route_geometry route)"

text \<open>The loop over the mirrors. \<open>web baseUrl coords\<close> is what the attempt on the mirror
  \<open>baseUrl\<close> does for the coordinates sent; the first usable body ends the loop.\<close>

fun tryServers :: "(jsstring \<Rightarrow> Coordinates list \<Rightarrow> osrm_reply) \<Rightarrow> Coordinates list
    \<Rightarrow> jsstring list \<Rightarrow> RouteData" where
  "tryServers web coords [] = \<lparr>geometry = [], steps = []\<rparr>"
| "tryServers web coords (baseUrl # rest) =
     (case web baseUrl coords of
        FetchThrows \<Rightarrow> tryServers web coords rest
      | HttpNotOk \<Rightarrow> tryServers web coords rest
      | HttpOk data \<Rightarrow>
          if code data = ascii ''Ok''
          then (case routes data of
                  Some (route # _) \<Rightarrow>
                    \<lparr>geometry = routeGeometry route, steps = routeSteps route\<rparr>
                | _ \<Rightarrow> tryServers web coords rest)
          else tryServers web coords rest)"

definition fetchRouteData :: "(jsstring \<Rightarrow> Coordinates list \<Rightarrow> osrm_reply)
    \<Rightarrow> DeliveryLocation list \<Rightarrow> RouteData" where
  "fetchRouteData web orderedLocations =
     tryServers web (map coordinates orderedLocations) OSRM_SERVERS"

subsection \<open>optimizeRouteWithGemini\<close>

text \<open>The parsed reply of the model; every property may be missing from the JSON.\<close>

record GeminiResult =
  reply_optimizedOrder :: "jsstring list option"
  reply_segments :: "RouteSegment list option"
  reply_stats :: "OptimizedRouteStats option"

text \<open>What the call of the model and the parsing of its text do: one of them throws
  (the value thrown has an optional \<open>message\<close>), or the parsed object is at hand.\<close>

datatype gemini_reply = GeminiThrows "jsstring option" | GeminiJson GeminiResult

text \<open>\<open>locations.find(l => l.isDepot) || locations[0]\<close>, without the stops for none.\<close>

definition findDepot :: "DeliveryLocation list \<Rightarrow> DeliveryLocation option" where
  "findDepot locs =
     (case find (\<lambda>l. truthy (isDepot l)) locs of
        Some d \<Rightarrow> Some d
      | None \<Rightarrow> (case locs of [] \<Rightarrow> None | l # _ \<Rightarrow> Some l))"

text \<open>The normalisation of the returned order against the depot's id.\<close>

definition normalizeOrder :: "jsstring \<Rightarrow> jsstring list option \<Rightarrow> jsstring list option" where
  "normalizeOrder depotId order =
     (case order of
        None \<Rightarrow> None
      | Some ids \<Rightarrow>
          if length ids > 0 \<and> ids ! 0 \<noteq> depotId
          then (if depotId \<notin> set ids then Some (depotId # ids) else Some ids)
          else Some ids)"

text \<open>The last block: the stops of the order that exist, and the road data for them.\<close>

definition attachRouteData :: "(jsstring \<Rightarrow> Coordinates list \<Rightarrow> osrm_reply)
    \<Rightarrow> DeliveryLocation list \<Rightarrow> RouteOptimizationResult \<Rightarrow> RouteOptimizationResult" where
  "attachRouteData web locs result =
     (case optimizedOrder result of
        None \<Rightarrow> result
      | Some ids \<Rightarrow>
          if length ids > 0
          then
            (let orderedLocations = List.map_filter (\<lambda>i. find (\<lambda>l. id' l = i) locs) ids
             in if length orderedLocations > 1
                then (let d = fetchRouteData web orderedLocations
                      in result\<lparr>pathPolyline := Some (geometry d),
                                navigationInstructions := Some (steps d)\<rparr>)
                else result)
          else result)"

text \<open>The function returns \<open>Inl\<close> of the thrown value's message when it throws.
  A reply without \<open>stats\<close> makes \<open>result.stats.vehicleType = ...\<close> raise a TypeError;
  the wording of its message is the engine's own, so it is the parameter
  \<open>engineMessage\<close>.\<close>

definition optimizeRouteWithGemini :: "jsstring \<Rightarrow> gemini_reply
    \<Rightarrow> (jsstring \<Rightarrow> Coordinates list \<Rightarrow> osrm_reply)
    \<Rightarrow> DeliveryLocation list \<Rightarrow> VehicleType \<Rightarrow> jsstring option + RouteOptimizationResult"
  where
  "optimizeRouteWithGemini engineMessage gemini web locs vt =
     (if length locs < 2 then Inl (Some NEED_TWO_STOPS)
      else
        (case findDepot locs of
           None \<Rightarrow> Inl None
         | Some depot \<Rightarrow>
             (case gemini of
                GeminiThrows m \<Rightarrow> Inl m
              | GeminiJson reply \<Rightarrow>
                  (case reply_stats reply of
                     None \<Rightarrow> Inl (Some engineMessage)
                   | Some s \<Rightarrow>
                       Inr (attachRouteData web locs
                         \<lparr>optimizedOrder = normalizeOrder (id' depot) (reply_optimizedOrder reply),
                          segments = (case reply_segments reply of None \<Rightarrow> [] | Some sg \<Rightarrow> sg),
                          stats = s\<lparr>statsVehicleType := Some vt\<rparr>,
                          pathPolyline = None,
                          navigationInstructions = None\<rparr>)))))"

subsection \<open>handleCalculateRoute\<close>

text \<open>The state after the handler has run to its end (\<open>finally\<close> has reset
  \<open>isCalculating\<close>).\<close>

definition handleCalculateRoute :: "jsstring \<Rightarrow> gemini_reply
    \<Rightarrow> (jsstring \<Rightarrow> Coordinates list \<Rightarrow> osrm_reply) \<Rightarrow> app_state \<Rightarrow> app_state" where
  "handleCalculateRoute engineMessage gemini web st =
     (if length (locations st) < 2 then st
      else
        (case optimizeRouteWithGemini engineMessage gemini web (locations st) (vehicleType st) of
           Inr result \<Rightarrow>
             st\<lparr>isCalculating := False, error := None, optimizedRoute := Some result\<rparr>
         | Inl err \<Rightarrow>
             st\<lparr>isCalculating := False,
                error := Some (CALC_FAILED @ orElse err CALC_DEFAULT)\<rparr>))"

section \<open>Notions of the specification\<close>

text \<open>The flattening in the specification's words: the legs' steps in leg order with
  one arrival marker between consecutive legs; \<open>i\<close> is the index of the first leg of
  the list.\<close>

fun flattenBetween :: "nat \<Rightarrow> NavigationStep list list \<Rightarrow> NavigationStep list" where
  "flattenBetween i [] = []"
| "flattenBetween i [ss] = ss"
| "flattenBetween i (ss # ts # rest) = ss @ [arrivedStep i] @ flattenBetween (Suc i) (ts # rest)"

text \<open>The translated steps of a leg, none for a leg without a step list.\<close>

definition legSteps :: "OsrmLeg \<Rightarrow> NavigationStep list" where
  "legSteps leg = (case leg_steps leg of None \<Rightarrow> [] | Some ss \<Rightarrow> map toNavigationStep ss)"

text \<open>A usable reply of a mirror: HTTP success, the status code "Ok", and at least one
  route candidate.\<close>

definition usable :: "osrm_reply \<Rightarrow> bool" where
  "usable r =
     (case r of
        HttpOk data \<Rightarrow>
          code data = ascii ''Ok'' \<and> (case routes data of Some (_ # _) \<Rightarrow> True | _ \<Rightarrow> False)
      | _ \<Rightarrow> False)"

text \<open>The data model's invariant on the depot flag: no stop but the earliest carries
  it.\<close>

definition depotOnlyFirst :: "DeliveryLocation list \<Rightarrow> bool" where
  "depotOnlyFirst locs = list_all (\<lambda>l. \<not> truthy (isDepot l)) (tl locs)"

text \<open>The normalised order has at least two stops that exist in the registry (the
  condition under which the road-routing service is called).\<close>

definition twoResolvable :: "DeliveryLocation list \<Rightarrow> jsstring list option \<Rightarrow> bool" where
  "twoResolvable locs order =
     (case order of
        None \<Rightarrow> False
      | Some ids \<Rightarrow> 2 \<le> length (List.map_filter (\<lambda>i. find (\<lambda>l. id' l = i) locs) ids))"

text \<open>The auto-numbered pattern of a display name: the prefix, a space, and a decimal
  number (one digit or more).\<close>

definition isDigit :: "nat \<Rightarrow> bool" where
  "isDigit c = (48 \<le> c \<and> c \<le> 57)"

definition autoNumbered :: "jsstring \<Rightarrow> bool" where
  "autoNumbered s =
     (startsWith s (STOP_PREFIX @ [0x20])
      \<and> drop (length STOP_PREFIX + 1) s \<noteq> []
      \<and> list_all isDigit (drop (length STOP_PREFIX + 1) s))"

section \<open>Example data\<close>

definition emptyState :: app_state where
  "emptyState = initialState (\<lambda>_. SyntaxError) NoItem"

definition exampleCoords :: "nat \<Rightarrow> Coordinates" where
  "exampleCoords n = \<lparr>lat = 137 / 10 + real n / 100, lng = 1005 / 10 + real n / 100\<rparr>"

definition threeStops :: app_state where
  "threeStops =
     handleMapClick (ascii ''C'') (exampleCoords 2)
       (handleMapClick (ascii ''B'') (exampleCoords 1)
         (handleMapClick (ascii ''A'') (exampleCoords 0) emptyState))"


definition twoStops :: app_state where
  "twoStops =
     handleMapClick (ascii ''B'') (exampleCoords 1)
       (handleMapClick (ascii ''A'') (exampleCoords 0) emptyState)"

definition exampleStats :: OptimizedRouteStats where
  "exampleStats = \<lparr>totalDistanceKm = 12, totalTimeMinutes = 30, fuelCostTHB = 33,
     tollCostTHB = 0, totalCostTHB = 33, advice = [], statsVehicleType = None\<rparr>"

definition exampleReply :: "jsstring list \<Rightarrow> GeminiResult" where
  "exampleReply ids = \<lparr>reply_optimizedOrder = Some ids, reply_segments = Some [],
     reply_stats = Some exampleStats\<rparr>"

definition offline :: "jsstring \<Rightarrow> Coordinates list \<Rightarrow> osrm_reply" where
  "offline baseUrl coords = FetchThrows"

definition exampleStep :: OsrmStep where
  "exampleStep = \<lparr>step_maneuver = \<lparr>mtype = ascii ''turn'', modifier = Some (ascii ''left'')\<rparr>,
     step_name = [], step_distance = 100, step_duration = 10\<rparr>"

text \<open>The message of one engine (V8) for the TypeError of an assignment to a property of
  \<open>undefined\<close>.\<close>

definition v8Message :: jsstring where
  "v8Message = ascii ''Cannot set properties of undefined (setting ''
     @ [0x27] @ ascii ''vehicleType'' @ [0x27] @ ascii '')''"

definition routedStops :: app_state where
  "routedStops =
     handleCalculateRoute v8Message (GeminiJson (exampleReply [ascii ''A'', ascii ''B''])) offline twoStops"

definition exampleOrder :: "nat \<Rightarrow> ParsedOrder" where
  "exampleOrder i = \<lparr>order_customerName = Some (ascii ''Customer '' @ decimal i),
     order_phoneNumber = None,
     order_address = Some (ascii ''Sukhumvit Road''),
     order_zone = Some (ascii ''Bang Na'')\<rparr>"

definition exampleEnv :: import_env where
  "exampleEnv = \<lparr>geocode = (\<lambda>i. GeocodeData [exampleCoords i]),
     generateId = (\<lambda>i. ascii ''id-'' @ decimal i),
     random = (\<lambda>i. (1 / 2, 1 / 4))\<rparr>"

text \<open>An order whose customer name is a custom label that starts with the prefix of the
  auto-numbered labels.\<close>

definition vipOrder :: ParsedOrder where
  "vipOrder = \<lparr>order_customerName = Some (STOP_PREFIX @ ascii '' VIP''),
     order_phoneNumber = None,
     order_address = Some (ascii ''Sukhumvit Road''),
     order_zone = Some (ascii ''Bang Na'')\<rparr>"

text \<open>Depot A and the stops B and C placed by map clicks, then one imported order.\<close>

definition withCustomer :: app_state where
  "withCustomer = handleImportOrders (ParsedOrders [exampleOrder 0]) exampleEnv threeStops"

definition withVip :: app_state where
  "withVip = handleImportOrders (ParsedOrders [vipOrder]) exampleEnv threeStops"

text \<open>The request for the second order throws.\<close>

definition flakyEnv :: import_env where
  "flakyEnv = exampleEnv\<lparr>geocode := (\<lambda>i. if i = 1 then GeocodeThrows
                                          else GeocodeData [exampleCoords i])\<rparr>"

text \<open>The address of the second order is not found.\<close>

definition unresolvedEnv :: import_env where
  "unresolvedEnv = exampleEnv\<lparr>geocode := (\<lambda>i. if i = 1 then GeocodeData []
                                               else GeocodeData [exampleCoords i])\<rparr>"

section \<open>Removing a stop\<close>

lemma renumber_frame:
  "(renumber idx loc)\<lparr>name := n\<rparr> = loc\<lparr>name := n\<rparr>"
  "isDepot (renumber idx loc) = isDepot loc"
  by (simp_all add: renumber_def)

lemma removeLocation_length:
  "length (removeLocation locs rid) = length (filter (\<lambda>l. id' l \<noteq> rid) locs)"
  by (simp add: removeLocation_def promote_def split: list.splits)

lemma promote_length: "length (promote locs rid ns) = length ns"
  by (simp add: promote_def split: list.splits)

lemma removeLocation_nth:
  "i < length (filter (\<lambda>l. id' l \<noteq> rid) locs) \<Longrightarrow>
   removeLocation locs rid ! i = renumber i (promote locs rid (filter (\<lambda>l. id' l \<noteq> rid) locs) ! i)"
  by (simp add: removeLocation_def Let_def nth_enumerate_eq promote_length)

lemma promote_nth_Suc: "promote locs rid ns ! Suc i = ns ! Suc i"
  by (simp add: promote_def split: list.splits)

lemma promote_tl: "tl (promote locs rid ns) = tl ns"
  by (simp add: promote_def split: list.splits)

lemma promote_frame:
  "map (\<lambda>l. l\<lparr>name := [], isDepot := None\<rparr>) (promote locs rid ns) = map (\<lambda>l. l\<lparr>name := [], isDepot := None\<rparr>) ns"
  by (simp add: promote_def split: list.splits)

lemma removeLocation_map:
  "map g (removeLocation locs rid) = map (\<lambda>(idx, loc). g (renumber idx loc)) (enumerate 0 (promote locs rid (filter (\<lambda>l. id' l \<noteq> rid) locs)))"
  by (simp add: removeLocation_def Let_def case_prod_unfold comp_def)

lemma map_enumerate_const: "map (\<lambda>(idx, loc). g loc) (enumerate k xs) = map g xs"
  by (induction xs arbitrary: k) simp_all

text \<open>
  Claim C10. Removing a stop leaves the id, coordinates, address, customerName,
  phoneNumber, zone and status of every remaining stop as they were: with the display
  name and the depot flag blanked out, the new list is the old list without the stops
  that carry the removed id. The depot flag changes on no stop but the first, and on
  the first it stays as it was or becomes true.
\<close>

theorem remove_frame:
  "map (\<lambda>l. l\<lparr>name := [], isDepot := None\<rparr>) (locations (handleRemoveLocation rid st))
     = map (\<lambda>l. l\<lparr>name := [], isDepot := None\<rparr>) (filter (\<lambda>l. id' l \<noteq> rid) (locations st))
   \<and> map isDepot (tl (locations (handleRemoveLocation rid st)))
     = map isDepot (tl (filter (\<lambda>l. id' l \<noteq> rid) (locations st)))
   \<and> (map isDepot (take 1 (locations (handleRemoveLocation rid st)))
        = map isDepot (take 1 (filter (\<lambda>l. id' l \<noteq> rid) (locations st)))
      \<or> map isDepot (take 1 (locations (handleRemoveLocation rid st))) = [Some True])"
proof -
  let ?ns = "filter (\<lambda>l. id' l \<noteq> rid) (locations st)"
  let ?ps = "promote (locations st) rid ?ns"
  have loc: "locations (handleRemoveLocation rid st) = removeLocation (locations st) rid"
    by (simp add: handleRemoveLocation_def)
  have erase: "(\<lambda>(idx, loc). (renumber idx loc)\<lparr>name := [], isDepot := None\<rparr>)
      = (\<lambda>(idx, loc). loc\<lparr>name := [], isDepot := None\<rparr>)"
    by (simp add: fun_eq_iff renumber_def)
  have a: "map (\<lambda>l. l\<lparr>name := [], isDepot := None\<rparr>) (removeLocation (locations st) rid)
      = map (\<lambda>l. l\<lparr>name := [], isDepot := None\<rparr>) ?ns"
    by (simp only: removeLocation_map erase map_enumerate_const promote_frame)
  have flag: "(\<lambda>(idx, loc). isDepot (renumber idx loc)) = (\<lambda>(idx, loc). isDepot loc)"
    by (simp add: fun_eq_iff renumber_frame)
  have d: "map isDepot (removeLocation (locations st) rid) = map isDepot ?ps"
    by (simp only: removeLocation_map flag map_enumerate_const)
  have b: "map isDepot (tl (removeLocation (locations st) rid)) = map isDepot (tl ?ns)"
  proof -
    have "map isDepot (tl (removeLocation (locations st) rid))
        = tl (map isDepot (removeLocation (locations st) rid))"
      by (rule map_tl)
    also have "\<dots> = tl (map isDepot ?ps)" by (simp only: d)
    also have "\<dots> = map isDepot (tl ?ps)" by (rule map_tl [symmetric])
    finally show ?thesis by (simp only: promote_tl)
  qed
  have t: "map isDepot (take 1 (removeLocation (locations st) rid)) = map isDepot (take 1 ?ps)"
  proof -
    have "map isDepot (take 1 (removeLocation (locations st) rid))
        = take 1 (map isDepot (removeLocation (locations st) rid))"
      by (rule take_map [symmetric])
    also have "\<dots> = take 1 (map isDepot ?ps)" by (simp only: d)
    finally show ?thesis by (simp only: take_map)
  qed
  have "map isDepot (take 1 ?ps) = map isDepot (take 1 ?ns) \<or> map isDepot (take 1 ?ps) = [Some True]"
    by (simp add: promote_def split: list.splits)
  then have c: "map isDepot (take 1 (removeLocation (locations st) rid)) = map isDepot (take 1 ?ns)
      \<or> map isDepot (take 1 (removeLocation (locations st) rid)) = [Some True]"
    by (simp only: t)
  show ?thesis using a b c by (simp only: loc) 
qed


lemma startsWith_append: "startsWith (p @ s) p"
  by (induction p) simp_all

lemma startsWith_stopLabel: "startsWith (stopLabel n) STOP_PREFIX"
  by (simp add: stopLabel_def startsWith_append)

lemma threeStops_locations:
  "locations threeStops =
     [\<lparr>id' = ascii ''A'', name = DEPOT_NAME, coordinates = exampleCoords 0, address = None,
        isDepot = Some True, customerName = None, phoneNumber = None,
        zone = Some (ascii ''HQ''), status = None\<rparr>,
      \<lparr>id' = ascii ''B'', name = stopLabel 1, coordinates = exampleCoords 1, address = None,
        isDepot = Some False, customerName = None, phoneNumber = None,
        zone = Some ZONE_GENERAL, status = None\<rparr>,
      \<lparr>id' = ascii ''C'', name = stopLabel 2, coordinates = exampleCoords 2, address = None,
        isDepot = Some False, customerName = None, phoneNumber = None,
        zone = Some ZONE_GENERAL, status = None\<rparr>]"
  by (simp add: threeStops_def emptyState_def initialState_def initialise_def tryLoad_def
      handleMapClick_def Let_def numeral_2_eq_2)

lemma startsWith_shorter: "startsWith s (p @ q) \<Longrightarrow> startsWith s p"
proof (induction p arbitrary: s)
  case Nil
  then show ?case by simp
next
  case (Cons c p)
  then show ?case by (cases s) auto
qed

lemma autoNumbered_startsWith: "autoNumbered s \<Longrightarrow> startsWith s STOP_PREFIX"
  by (auto simp: autoNumbered_def intro: startsWith_shorter)

lemma decimal_digits: "decimal n \<noteq> [] \<and> list_all isDigit (decimal n)"
proof (induction n rule: decimal.induct)
  case (1 n)
  show ?case
  proof (cases "n < 10")
    case True
    then show ?thesis
      by (subst decimal.simps, subst (2) decimal.simps) (simp add: isDigit_def)
  next
    case False
    have "n mod 10 < 10"
      by simp
    then have "isDigit (48 + n mod 10)"
      unfolding isDigit_def by linarith
    with False "1.IH" show ?thesis
      by (subst decimal.simps, subst (2) decimal.simps) simp
  qed
qed

text \<open>The labels the code writes match the pattern.\<close>

lemma autoNumbered_stopLabel: "autoNumbered (stopLabel n)"
proof -
  have "startsWith (stopLabel n) (STOP_PREFIX @ [0x20])"
    using startsWith_append [of "STOP_PREFIX @ [0x20]" "decimal n"]
    by (simp add: stopLabel_def)
  moreover have "drop (length STOP_PREFIX + 1) (stopLabel n) = decimal n"
    by (simp add: stopLabel_def)
  ultimately show ?thesis
    using decimal_digits [of n] by (simp add: autoNumbered_def)
qed

text \<open>What the removal does to the name of a remaining stop that is not the depot: the
  test is \<open>startsWith\<close> on the prefix alone.\<close>

lemma remove_renames_by_prefix:
  assumes "i < length (locations (handleRemoveLocation rid st))"
    and "\<not> truthy (isDepot (locations (handleRemoveLocation rid st) ! i))"
  shows "name (locations (handleRemoveLocation rid st) ! i) =
     (if startsWith (name (filter (\<lambda>l. id' l \<noteq> rid) (locations st) ! i)) STOP_PREFIX
      then stopLabel i
      else name (filter (\<lambda>l. id' l \<noteq> rid) (locations st) ! i))"
proof -
  let ?ns = "filter (\<lambda>l. id' l \<noteq> rid) (locations st)"
  let ?p = "promote (locations st) rid ?ns ! i"
  have loc: "locations (handleRemoveLocation rid st) = removeLocation (locations st) rid"
    by (simp add: handleRemoveLocation_def)
  have i: "i < length ?ns"
    using assms(1) by (simp add: loc removeLocation_length)
  have new: "removeLocation (locations st) rid ! i = renumber i ?p"
    using i by (rule removeLocation_nth)
  have nd: "\<not> truthy (isDepot ?p)"
    using assms(2) by (simp add: loc new renumber_frame)
  have same: "?p = ?ns ! i"
  proof (cases i)
    case 0
    with i nd show ?thesis
      by (auto simp: promote_def truthy_def split: list.splits if_splits)
  next
    case (Suc k)
    then show ?thesis by (simp add: promote_nth_Suc)
  qed
  show ?thesis
    using nd by (simp add: loc new renumber_def same)
qed

lemma removeLocation_three:
  assumes "locs = l0 # others" and "id' l0 \<noteq> rid"
    and "filter (\<lambda>l. id' l \<noteq> rid) locs = [a, b, c]"
  shows "removeLocation locs rid = [renumber 0 a, renumber 1 b, renumber 2 c]"
proof -
  have "promote locs rid [a, b, c] = [a, b, c]"
    by (simp add: promote_def assms(1,2))
  then show ?thesis
    by (simp add: removeLocation_def assms(3) numeral_2_eq_2)
qed

lemma withCustomer_locations:
  "locations withCustomer = locations threeStops @
     [\<lparr>id' = ascii ''id-'' @ decimal 0, name = ascii ''Customer '' @ decimal 0,
        coordinates = exampleCoords 0, address = Some (ascii ''Sukhumvit Road''),
        isDepot = Some False, customerName = Some (ascii ''Customer '' @ decimal 0),
        phoneNumber = None, zone = Some (ascii ''Bang Na''), status = None\<rparr>]"
proof -
  have "orElse (Some (ascii ''Customer '' @ decimal 0)) (orderLabel (0 + 1))
      = ascii ''Customer '' @ decimal 0"
    by (simp add: orElse_def ascii_def)
  moreover have "exampleCoords 0 = \<lparr>lat = lat (exampleCoords 0), lng = lng (exampleCoords 0)\<rparr>"
    by simp
  ultimately show ?thesis
    by (simp add: withCustomer_def handleImportOrders_def geocodeOrder_def exampleEnv_def
        exampleOrder_def threeStops_locations)
qed

lemma withVip_locations:
  "locations withVip = locations threeStops @
     [\<lparr>id' = ascii ''id-'' @ decimal 0, name = STOP_PREFIX @ ascii '' VIP'',
        coordinates = exampleCoords 0, address = Some (ascii ''Sukhumvit Road''),
        isDepot = Some False, customerName = Some (STOP_PREFIX @ ascii '' VIP''),
        phoneNumber = None, zone = Some (ascii ''Bang Na''), status = None\<rparr>]"
proof -
  have "orElse (Some (STOP_PREFIX @ ascii '' VIP'')) (orderLabel (0 + 1))
      = STOP_PREFIX @ ascii '' VIP''"
    by (simp add: orElse_def ascii_def)
  moreover have "exampleCoords 0 = \<lparr>lat = lat (exampleCoords 0), lng = lng (exampleCoords 0)\<rparr>"
    by simp
  ultimately show ?thesis
    by (simp add: withVip_def handleImportOrders_def geocodeOrder_def exampleEnv_def
        vipOrder_def threeStops_locations)
qed

lemma withVip_removeB:
  "map name (locations (handleRemoveLocation (ascii ''B'') withVip))
     = [DEPOT_NAME, stopLabel 1, stopLabel 2]"
proof -
  let ?a = "\<lparr>id' = ascii ''A'', name = DEPOT_NAME, coordinates = exampleCoords 0, address = None,
        isDepot = Some True, customerName = None, phoneNumber = None,
        zone = Some (ascii ''HQ''), status = None\<rparr>"
  let ?b = "\<lparr>id' = ascii ''B'', name = stopLabel 1, coordinates = exampleCoords 1, address = None,
        isDepot = Some False, customerName = None, phoneNumber = None,
        zone = Some ZONE_GENERAL, status = None\<rparr>"
  let ?c = "\<lparr>id' = ascii ''C'', name = stopLabel 2, coordinates = exampleCoords 2, address = None,
        isDepot = Some False, customerName = None, phoneNumber = None,
        zone = Some ZONE_GENERAL, status = None\<rparr>"
  let ?v = "\<lparr>id' = ascii ''id-'' @ decimal 0, name = STOP_PREFIX @ ascii '' VIP'',
        coordinates = exampleCoords 0, address = Some (ascii ''Sukhumvit Road''),
        isDepot = Some False, customerName = Some (STOP_PREFIX @ ascii '' VIP''),
        phoneNumber = None, zone = Some (ascii ''Bang Na''), status = None\<rparr>"
  have locs: "locations withVip = ?a # [?b, ?c, ?v]"
    by (simp add: withVip_locations threeStops_locations)
  have head: "id' ?a \<noteq> ascii ''B''"
    by (simp add: ascii_def)
  have rest: "filter (\<lambda>l. id' l \<noteq> ascii ''B'') (locations withVip) = [?a, ?c, ?v]"
    by (simp add: locs) (simp add: ascii_def)
  show ?thesis
    by (simp only: handleRemoveLocation_def removeLocation_three [OF locs head rest])
      (simp add: renumber_def truthy_def startsWith_stopLabel startsWith_append)
qed

lemma withCustomer_filterB:
  "filter (\<lambda>l. id' l \<noteq> ascii ''B'') (locations withCustomer) =
     [\<lparr>id' = ascii ''A'', name = DEPOT_NAME, coordinates = exampleCoords 0, address = None,
        isDepot = Some True, customerName = None, phoneNumber = None,
        zone = Some (ascii ''HQ''), status = None\<rparr>,
      \<lparr>id' = ascii ''C'', name = stopLabel 2, coordinates = exampleCoords 2, address = None,
        isDepot = Some False, customerName = None, phoneNumber = None,
        zone = Some ZONE_GENERAL, status = None\<rparr>,
      \<lparr>id' = ascii ''id-'' @ decimal 0, name = ascii ''Customer '' @ decimal 0,
        coordinates = exampleCoords 0, address = Some (ascii ''Sukhumvit Road''),
        isDepot = Some False, customerName = Some (ascii ''Customer '' @ decimal 0),
        phoneNumber = None, zone = Some (ascii ''Bang Na''), status = None\<rparr>]"
  by (simp add: withCustomer_locations threeStops_locations) (simp add: ascii_def)

lemma customer_not_prefixed: "\<not> startsWith (ascii ''Customer '' @ decimal 0) STOP_PREFIX"
  by (simp add: ascii_def STOP_PREFIX_def)

lemma withCustomer_removeB:
  "locations (handleRemoveLocation (ascii ''B'') withCustomer) =
     [\<lparr>id' = ascii ''A'', name = DEPOT_NAME, coordinates = exampleCoords 0, address = None,
        isDepot = Some True, customerName = None, phoneNumber = None,
        zone = Some (ascii ''HQ''), status = None\<rparr>,
      \<lparr>id' = ascii ''C'', name = stopLabel 1, coordinates = exampleCoords 2, address = None,
        isDepot = Some False, customerName = None, phoneNumber = None,
        zone = Some ZONE_GENERAL, status = None\<rparr>,
      \<lparr>id' = ascii ''id-'' @ decimal 0, name = ascii ''Customer '' @ decimal 0,
        coordinates = exampleCoords 0, address = Some (ascii ''Sukhumvit Road''),
        isDepot = Some False, customerName = Some (ascii ''Customer '' @ decimal 0),
        phoneNumber = None, zone = Some (ascii ''Bang Na''), status = None\<rparr>]"
proof -
  have "\<exists>l0 others. locations withCustomer = l0 # others \<and> id' l0 \<noteq> ascii ''B''"
    by (simp add: withCustomer_locations threeStops_locations) (simp add: ascii_def)
  then obtain l0 others where locs: "locations withCustomer = l0 # others"
    and head: "id' l0 \<noteq> ascii ''B''"
    by blast
  show ?thesis
    by (simp only: handleRemoveLocation_def
        removeLocation_three [OF locs head withCustomer_filterB])
      (simp add: renumber_def truthy_def startsWith_stopLabel customer_not_prefixed)
qed

text \<open>
  Claim C5, as stated, fails. Take depot A and the stops B and C placed by map clicks,
  and an imported stop whose customer name is the custom label "<prefix> VIP"; remove
  B. The index written into a label is the stop's position in the whole remaining
  list, where the depot holds position 0: C gets the label of index 1, not 0. And the
  custom label, which starts with the prefix, is overwritten by the label of index 2.
\<close>

theorem relabel_counterexample:
  "map name (locations withVip)
     = [DEPOT_NAME, stopLabel 1, stopLabel 2, STOP_PREFIX @ ascii '' VIP'']
   \<and> map name (locations (handleRemoveLocation (ascii ''B'') withVip))
     = [DEPOT_NAME, stopLabel 1, stopLabel 2]
   \<and> stopLabel 1 \<noteq> stopLabel 0
   \<and> \<not> autoNumbered (STOP_PREFIX @ ascii '' VIP'')
   \<and> stopLabel 2 \<noteq> STOP_PREFIX @ ascii '' VIP''"
proof -
  have a: "map name (locations withVip)
     = [DEPOT_NAME, stopLabel 1, stopLabel 2, STOP_PREFIX @ ascii '' VIP'']"
    by (simp add: withVip_locations threeStops_locations)
  have b: "stopLabel 1 \<noteq> stopLabel 0"
    by (simp add: stopLabel_def decimal.simps)
  have c: "\<not> autoNumbered (STOP_PREFIX @ ascii '' VIP'')"
    by (simp add: autoNumbered_def isDigit_def ascii_def)
  have d: "stopLabel 2 \<noteq> STOP_PREFIX @ ascii '' VIP''"
    by (simp add: stopLabel_def decimal.simps ascii_def)
  show ?thesis
    using a b c d withVip_removeB by simp
qed

text \<open>
  Claim C5, amended. After a removal, a remaining stop that is not the depot and whose
  name matches the auto-numbered pattern is relabelled with its zero-based position in
  the whole remaining list (the depot counted); a remaining stop that is not the depot
  and whose name does not start with the prefix of the pattern keeps its name.
\<close>

theorem remove_relabels:
  assumes "i < length (locations (handleRemoveLocation rid st))"
    and "\<not> truthy (isDepot (locations (handleRemoveLocation rid st) ! i))"
    and "autoNumbered (name (filter (\<lambda>l. id' l \<noteq> rid) (locations st) ! i))
      \<or> \<not> startsWith (name (filter (\<lambda>l. id' l \<noteq> rid) (locations st) ! i)) STOP_PREFIX"
  shows "name (locations (handleRemoveLocation rid st) ! i) =
     (if autoNumbered (name (filter (\<lambda>l. id' l \<noteq> rid) (locations st) ! i))
      then stopLabel i
      else name (filter (\<lambda>l. id' l \<noteq> rid) (locations st) ! i))"
proof (cases "autoNumbered (name (filter (\<lambda>l. id' l \<noteq> rid) (locations st) ! i))")
  case True
  then have "startsWith (name (filter (\<lambda>l. id' l \<noteq> rid) (locations st) ! i)) STOP_PREFIX"
    by (rule autoNumbered_startsWith)
  with True show ?thesis
    by (simp add: remove_renames_by_prefix [OF assms(1,2)])
next
  case False
  with assms(3)
  have "\<not> startsWith (name (filter (\<lambda>l. id' l \<noteq> rid) (locations st) ! i)) STOP_PREFIX"
    by simp
  with False show ?thesis
    by (simp add: remove_renames_by_prefix [OF assms(1,2)])
qed

theorem remove_relabels_witness:
  "autoNumbered (name (filter (\<lambda>l. id' l \<noteq> ascii ''B'') (locations withCustomer) ! 1))
   \<and> \<not> startsWith (name (filter (\<lambda>l. id' l \<noteq> ascii ''B'') (locations withCustomer) ! 2))
        STOP_PREFIX
   \<and> name (locations (handleRemoveLocation (ascii ''B'') withCustomer) ! 1) = stopLabel 1
   \<and> name (locations (handleRemoveLocation (ascii ''B'') withCustomer) ! 2)
       = ascii ''Customer '' @ decimal 0"
proof -
  let ?new = "locations (handleRemoveLocation (ascii ''B'') withCustomer)"
  let ?old = "filter (\<lambda>l. id' l \<noteq> ascii ''B'') (locations withCustomer)"
  have n1: "name (?old ! 1) = stopLabel 2"
    by (simp add: withCustomer_filterB)
  have n2: "name (?old ! 2) = ascii ''Customer '' @ decimal 0"
    by (simp add: withCustomer_filterB)
  have a1: "1 < length ?new" and a2: "2 < length ?new"
    by (simp_all add: withCustomer_removeB)
  have d1: "\<not> truthy (isDepot (?new ! 1))" and d2: "\<not> truthy (isDepot (?new ! 2))"
    by (simp_all add: withCustomer_removeB truthy_def)
  have q1: "autoNumbered (name (?old ! 1))"
    by (simp only: n1 autoNumbered_stopLabel)
  have q2: "\<not> startsWith (name (?old ! 2)) STOP_PREFIX"
    by (simp only: n2 customer_not_prefixed) simp
  have p1: "autoNumbered (name (?old ! 1)) \<or> \<not> startsWith (name (?old ! 1)) STOP_PREFIX"
    using q1 by (rule disjI1)
  have p2: "autoNumbered (name (?old ! 2)) \<or> \<not> startsWith (name (?old ! 2)) STOP_PREFIX"
    using q2 by (rule disjI2)
  have r1: "name (?new ! 1) = stopLabel 1"
    using remove_relabels [OF a1 d1 p1] q1 by simp
  have "\<not> autoNumbered (name (?old ! 2))"
    using q2 autoNumbered_startsWith by blast
  then have "name (?new ! 2) = name (?old ! 2)"
    using remove_relabels [OF a2 d2 p2] by simp
  then have r2: "name (?new ! 2) = ascii ''Customer '' @ decimal 0"
    by (simp only: n2)
  show ?thesis
    using q1 q2 r1 r2 by (intro conjI)
qed

text \<open>The invariant on the depot flag holds of the empty list and is kept by a map
  click and by a removal (the order import keeps it too: \<open>import_depotOnlyFirst\<close>).\<close>

lemma empty_depotOnlyFirst: "depotOnlyFirst []"
  by (simp add: depotOnlyFirst_def)

lemma mapClick_depotOnlyFirst:
  assumes "depotOnlyFirst (locations st)"
  shows "depotOnlyFirst (locations (handleMapClick newId coords st))"
proof (cases "locations st")
  case Nil
  then show ?thesis
    by (simp add: handleMapClick_def Let_def depotOnlyFirst_def)
next
  case (Cons l ls)
  with assms show ?thesis
    by (simp add: handleMapClick_def Let_def depotOnlyFirst_def truthy_def)
qed

lemma remove_depotOnlyFirst:
  assumes "depotOnlyFirst (locations st)"
  shows "depotOnlyFirst (locations (handleRemoveLocation rid st))"
proof -
  let ?ns = "filter (\<lambda>l. id' l \<noteq> rid) (locations st)"
  have flag: "(\<lambda>(idx, loc). isDepot (renumber idx loc)) = (\<lambda>(idx, loc). isDepot loc)"
    by (simp add: fun_eq_iff renumber_frame)
  have "map isDepot (removeLocation (locations st) rid)
      = map isDepot (promote (locations st) rid ?ns)"
    by (simp only: removeLocation_map flag map_enumerate_const)
  then have "tl (map isDepot (removeLocation (locations st) rid))
      = tl (map isDepot (promote (locations st) rid ?ns))"
    by simp
  then have flags: "map isDepot (tl (removeLocation (locations st) rid)) = map isDepot (tl ?ns)"
    by (simp only: map_tl [symmetric] promote_tl)
  have "set (tl ?ns) \<subseteq> set (tl (locations st))"
  proof (cases "locations st")
    case Nil
    then show ?thesis by simp
  next
    case (Cons l ls)
    show ?thesis
    proof (cases "id' l = rid")
      case True
      with Cons have "?ns = filter (\<lambda>l. id' l \<noteq> rid) ls"
        by simp
      then have "set ?ns \<subseteq> set ls"
        by simp
      moreover have "set (tl ?ns) \<subseteq> set ?ns"
        by (cases ?ns) auto
      ultimately show ?thesis
        using Cons by auto
    next
      case False
      with Cons show ?thesis by auto
    qed
  qed
  with assms have "\<forall>l\<in>set (tl ?ns). \<not> truthy (isDepot l)"
    by (auto simp: depotOnlyFirst_def list_all_iff)
  then have "\<forall>b\<in>set (map isDepot (tl ?ns)). \<not> truthy b"
    by simp
  then have "\<forall>b\<in>set (map isDepot (tl (removeLocation (locations st) rid))). \<not> truthy b"
    by (simp only: flags)
  then show ?thesis
    by (simp add: depotOnlyFirst_def list_all_iff handleRemoveLocation_def)
qed

text \<open>
  Claim C6. Take a list that satisfies the invariant on the depot flag; its first stop
  then is the depot (the stop the route service takes as depot). When that stop is
  removed and some stop remains, the earliest remaining stop \<open>r\<close> is at the head of
  the new list with the flag set and the fixed depot label, whatever its name was,
  and it is the only stop of the new list that carries the flag.
\<close>

theorem depot_removal_promotes_earliest:
  assumes "locations st = d # rest"
    and "depotOnlyFirst (locations st)"
    and "id' d = rid"
    and "filter (\<lambda>l. id' l \<noteq> rid) rest = r # rs"
  shows "findDepot (locations st) = Some d
     \<and> hd (locations (handleRemoveLocation rid st)) = r\<lparr>isDepot := Some True, name := DEPOT_NAME\<rparr>
     \<and> filter (\<lambda>l. truthy (isDepot l)) (locations (handleRemoveLocation rid st))
        = [r\<lparr>isDepot := Some True, name := DEPOT_NAME\<rparr>]"
proof -
  let ?r = "r\<lparr>isDepot := Some True, name := DEPOT_NAME\<rparr>"
  have unflagged: "\<forall>l\<in>set rest. \<not> truthy (isDepot l)"
    using assms(1,2) by (simp add: depotOnlyFirst_def list_all_iff)
  then have "find (\<lambda>l. truthy (isDepot l)) rest = None"
    by (simp add: find_None_iff)
  then have depot: "findDepot (locations st) = Some d"
    by (simp add: findDepot_def assms(1))
  have new: "locations (handleRemoveLocation rid st)
      = renumber 0 ?r # map (\<lambda>(idx, loc). renumber idx loc) (enumerate 1 rs)"
    by (simp add: handleRemoveLocation_def removeLocation_def promote_def assms(1,3,4))
  have head: "renumber 0 ?r = ?r"
    by (simp add: renumber_def truthy_def)
  have "set rs \<subseteq> set rest"
    using assms(4) by (metis filter_is_subset set_subset_Cons subset_trans)
  then have "\<forall>l\<in>set rs. \<not> truthy (isDepot l)"
    using unflagged by blast
  then have tail: "filter (\<lambda>l. truthy (isDepot l))
      (map (\<lambda>(idx, loc). renumber idx loc) (enumerate 1 rs)) = []"
    by (auto simp: filter_empty_conv renumber_frame in_set_enumerate_eq)
  show ?thesis
    using depot tail by (simp add: new head truthy_def)
qed

theorem depot_removal_promotes_earliest_witness:
  "depotOnlyFirst (locations threeStops)
   \<and> hd (locations (handleRemoveLocation (ascii ''A'') threeStops))
     = \<lparr>id' = ascii ''B'', name = DEPOT_NAME, coordinates = exampleCoords 1, address = None,
        isDepot = Some True, customerName = None, phoneNumber = None,
        zone = Some ZONE_GENERAL, status = None\<rparr>
   \<and> length (filter (\<lambda>l. truthy (isDepot l))
        (locations (handleRemoveLocation (ascii ''A'') threeStops))) = 1"
proof -
  let ?d = "\<lparr>id' = ascii ''A'', name = DEPOT_NAME, coordinates = exampleCoords 0, address = None,
        isDepot = Some True, customerName = None, phoneNumber = None,
        zone = Some (ascii ''HQ''), status = None\<rparr>"
  let ?b = "\<lparr>id' = ascii ''B'', name = stopLabel 1, coordinates = exampleCoords 1, address = None,
        isDepot = Some False, customerName = None, phoneNumber = None,
        zone = Some ZONE_GENERAL, status = None\<rparr>"
  let ?c = "\<lparr>id' = ascii ''C'', name = stopLabel 2, coordinates = exampleCoords 2, address = None,
        isDepot = Some False, customerName = None, phoneNumber = None,
        zone = Some ZONE_GENERAL, status = None\<rparr>"
  have h1: "locations threeStops = ?d # [?b, ?c]"
    by (simp add: threeStops_locations)
  have h2: "depotOnlyFirst (locations threeStops)"
    by (simp add: threeStops_locations depotOnlyFirst_def truthy_def)
  have h3: "id' ?d = ascii ''A''"
    by simp
  have h4: "filter (\<lambda>l. id' l \<noteq> ascii ''A'') [?b, ?c] = ?b # [?c]"
    by (simp add: ascii_def)
  show ?thesis
    using depot_removal_promotes_earliest [OF h1 h2 h3 h4] h2 by simp
qed

section \<open>The initial state\<close>

lemma initialState_NoItem:
  "initialState JSON_parse NoItem =
     \<lparr>locations = [], optimizedRoute = None, vehicleType = PICKUP_CLOSED,
      isCalculating = False, importingStatus = None, selectedId = None, error = None\<rparr>"
  by (simp add: initialState_def initialise_def tryLoad_def)

text \<open>
  Claim C9. A stored text that \<open>JSON.parse\<close> rejects gives the same initial state as a
  missing key, and so does a read of the storage that throws: no stops, no route
  result, and no error message in the state. The initialisers are total: nothing is
  thrown past them.
\<close>

theorem invalid_json_as_absent:
  assumes "JSON_parse savedData = SyntaxError"
  shows "initialState JSON_parse (Item savedData) = initialState JSON_parse NoItem
     \<and> initialState JSON_parse GetItemThrows = initialState JSON_parse NoItem
     \<and> locations (initialState JSON_parse (Item savedData)) = []
     \<and> optimizedRoute (initialState JSON_parse (Item savedData)) = None
     \<and> error (initialState JSON_parse (Item savedData)) = None"
  using assms by (simp add: initialState_def initialise_def tryLoad_def)

theorem invalid_json_as_absent_witness:
  "(\<lambda>_. SyntaxError) (ascii ''{oops'') = SyntaxError
   \<and> initialState (\<lambda>_. SyntaxError) (Item (ascii ''{oops'')) = emptyState"
proof -
  have h: "(\<lambda>_. SyntaxError) (ascii ''{oops'') = SyntaxError"
    by simp
  show ?thesis
    using invalid_json_as_absent [OF h] by (simp add: emptyState_def)
qed

section \<open>The navigation steps of a routing reply\<close>

lemma legCallback_append:
  "legCallback n leg i acc = acc @ legCallback n leg i []"
  by (simp add: legCallback_def Let_def split: option.splits)

lemma forEachLeg_concat:
  "forEachLeg n legs i acc = acc @ concat (map (\<lambda>(j, leg). legCallback n leg j []) (enumerate i legs))"
proof (induction legs arbitrary: i acc)
  case Nil
  then show ?case by simp
next
  case (Cons leg legs)
  have "forEachLeg n (leg # legs) i acc = forEachLeg n legs (Suc i) (legCallback n leg i acc)"
    by simp
  also have "\<dots> = legCallback n leg i acc
      @ concat (map (\<lambda>(j, leg). legCallback n leg j []) (enumerate (Suc i) legs))"
    by (rule Cons.IH)
  also have "legCallback n leg i acc = acc @ legCallback n leg i []"
    by (rule legCallback_append)
  finally show ?case by simp
qed

lemma legCallback_legSteps:
  "legCallback n leg i [] =
     (case leg_steps leg of
        None \<Rightarrow> []
      | Some ss \<Rightarrow> legSteps leg @ (if Suc i < n then [arrivedStep i] else []))"
  by (auto simp: legCallback_def legSteps_def Let_def split: option.splits)

lemma concat_flattenBetween:
  assumes "\<forall>leg\<in>set legs. leg_steps leg \<noteq> None"
  shows "concat (map (\<lambda>(j, leg). legCallback (i + length legs) leg j []) (enumerate i legs))
     = flattenBetween i (map legSteps legs)"
  using assms
proof (induction legs arbitrary: i)
  case Nil
  then show ?case by simp
next
  case (Cons leg legs)
  from Cons.prems obtain ss where ss: "leg_steps leg = Some ss"
    by auto
  have rest: "concat (map (\<lambda>(j, leg). legCallback (Suc i + length legs) leg j [])
        (enumerate (Suc i) legs)) = flattenBetween (Suc i) (map legSteps legs)"
    using Cons.prems by (intro Cons.IH) simp
  show ?case
  proof (cases legs)
    case Nil
    then show ?thesis by (simp add: legCallback_legSteps ss)
  next
    case (Cons leg2 legs2)
    then show ?thesis
      using rest by (simp add: legCallback_legSteps ss)
  qed
qed

lemma length_flattenBetween:
  "length (flattenBetween i xss) = sum_list (map length xss) + (length xss - 1)"
  by (induction i xss rule: flattenBetween.induct) simp_all

text \<open>
  Claim C7, as stated, fails: a leg of the reply that has no step list gets no marker
  after it. With two legs of which the first has none, the flattened sequence is the
  second leg's step alone; one marker was due.
\<close>

theorem marker_counterexample:
  "routeSteps \<lparr>route_geometry = [],
      route_legs = Some [\<lparr>leg_steps = None\<rparr>, \<lparr>leg_steps = Some [exampleStep]\<rparr>]\<rparr>
     = [toNavigationStep exampleStep]"
  by (simp add: routeSteps_def legCallback_def)

text \<open>
  Claim C7, amended. The flattened sequence of a route is, leg by leg in leg order,
  nothing for a leg without a step list, and for a leg with one its translated steps
  followed, unless it is the last leg, by the marker "arrived at stop k + 1" (\<open>k\<close> the
  leg's index). Hence when each of the \<open>L\<close> legs has a step list the sequence is the
  legs' translated steps with exactly one marker between consecutive legs, \<open>L - 1\<close>
  markers in all.
\<close>

theorem steps_flattened_with_markers:
  assumes "route_legs route = Some legs"
  shows "routeSteps route =
       concat (map (\<lambda>(k, leg). case leg_steps leg of
                       None \<Rightarrow> []
                     | Some ss \<Rightarrow> map toNavigationStep ss
                         @ (if Suc k < length legs then [arrivedStep k] else []))
                   (enumerate 0 legs))
     \<and> (if list_all (\<lambda>leg. leg_steps leg \<noteq> None) legs
        then routeSteps route = flattenBetween 0 (map legSteps legs)
          \<and> length (routeSteps route)
              = sum_list (map (\<lambda>leg. length (legSteps leg)) legs) + (length legs - 1)
        else True)"
proof -
  have eq: "(\<lambda>(j, leg). legCallback (length legs) leg j [])
      = (\<lambda>(k, leg). case leg_steps leg of
                       None \<Rightarrow> []
                     | Some ss \<Rightarrow> map toNavigationStep ss
                         @ (if Suc k < length legs then [arrivedStep k] else []))"
    by (auto simp: fun_eq_iff legCallback_def Let_def split: option.splits)
  have steps: "routeSteps route
      = concat (map (\<lambda>(j, leg). legCallback (length legs) leg j []) (enumerate 0 legs))"
    by (simp add: routeSteps_def assms forEachLeg_concat)
  have all: "routeSteps route = flattenBetween 0 (map legSteps legs)"
    if "list_all (\<lambda>leg. leg_steps leg \<noteq> None) legs"
  proof -
    from that have "\<forall>leg\<in>set legs. leg_steps leg \<noteq> None"
      by (simp add: list_all_iff)
    from concat_flattenBetween [OF this, of 0] show ?thesis
      by (simp add: steps)
  qed
  have len: "length (flattenBetween 0 (map legSteps legs))
      = sum_list (map (\<lambda>leg. length (legSteps leg)) legs) + (length legs - 1)"
    by (simp add: length_flattenBetween comp_def)
  show ?thesis
    using all len by (simp add: steps eq)
qed

theorem steps_flattened_with_markers_witness:
  "routeSteps \<lparr>route_geometry = [],
      route_legs = Some [\<lparr>leg_steps = Some [exampleStep]\<rparr>, \<lparr>leg_steps = Some []\<rparr>,
                         \<lparr>leg_steps = Some [exampleStep]\<rparr>]\<rparr>
     = [toNavigationStep exampleStep, arrivedStep 0, arrivedStep 1, toNavigationStep exampleStep]"
proof -
  let ?legs = "[\<lparr>leg_steps = Some [exampleStep]\<rparr>, \<lparr>leg_steps = Some []\<rparr>,
                \<lparr>leg_steps = Some [exampleStep]\<rparr>]"
  have h: "route_legs \<lparr>route_geometry = [], route_legs = Some ?legs\<rparr> = Some ?legs"
    by simp
  show ?thesis
    using steps_flattened_with_markers [OF h] by (simp add: legSteps_def)
qed

section \<open>The route calculation\<close>

text \<open>The adapter returns nothing, or the geometry and the flattened steps of the first
  route of a mirror's usable reply.\<close>

lemma tryServers_result:
  "tryServers web coords servers = \<lparr>geometry = [], steps = []\<rparr>
   \<or> (\<exists>u\<in>set servers. \<exists>data route more.
         web u coords = HttpOk data \<and> code data = ascii ''Ok''
         \<and> routes data = Some (route # more)
         \<and> tryServers web coords servers
             = \<lparr>geometry = routeGeometry route, steps = routeSteps route\<rparr>)"
proof (induction servers)
  case Nil
  then show ?case by simp
next
  case (Cons u servers)
  then show ?case
    by (cases "web u coords") (auto split: option.splits list.splits)
qed

lemma tryServers_unusable:
  assumes "\<forall>u\<in>set servers. \<not> usable (web u coords)"
  shows "tryServers web coords servers = \<lparr>geometry = [], steps = []\<rparr>"
  using assms
proof (induction servers)
  case Nil
  then show ?case by simp
next
  case (Cons u servers)
  then show ?case
    by (cases "web u coords") (auto simp: usable_def split: option.splits list.splits)
qed

lemma attachRouteData_frame:
  "optimizedOrder (attachRouteData web locs result) = optimizedOrder result"
  "segments (attachRouteData web locs result) = segments result"
  "stats (attachRouteData web locs result) = stats result"
  by (simp_all add: attachRouteData_def Let_def split: option.splits)

lemma findDepot_Some:
  "2 \<le> length locs \<Longrightarrow> \<exists>depot. findDepot locs = Some depot"
  by (cases locs) (simp_all add: findDepot_def split: option.splits)

lemma orElse_default_nonempty: "d \<noteq> [] \<Longrightarrow> orElse m d \<noteq> []"
  by (simp add: orElse_def split: option.splits)

lemma optimize_throws:
  assumes "2 \<le> length locs"
  shows "optimizeRouteWithGemini em (GeminiThrows m) web locs vt = Inl m"
proof -
  from findDepot_Some [OF assms] obtain depot where "findDepot locs = Some depot" ..
  with assms show ?thesis
    by (simp add: optimizeRouteWithGemini_def)
qed

lemma optimize_no_stats:
  assumes "2 \<le> length locs" and "reply_stats reply = None"
  shows "optimizeRouteWithGemini em (GeminiJson reply) web locs vt = Inl (Some em)"
proof -
  from findDepot_Some [OF assms(1)] obtain depot where "findDepot locs = Some depot" ..
  with assms show ?thesis
    by (simp add: optimizeRouteWithGemini_def)
qed

lemma optimize_returns:
  "2 \<le> length locs \<Longrightarrow> findDepot locs = Some depot \<Longrightarrow> reply_stats reply = Some s \<Longrightarrow>
   optimizeRouteWithGemini em (GeminiJson reply) web locs vt =
     Inr (attachRouteData web locs
       \<lparr>optimizedOrder = normalizeOrder (id' depot) (reply_optimizedOrder reply),
        segments = (case reply_segments reply of None \<Rightarrow> [] | Some sg \<Rightarrow> sg),
        stats = s\<lparr>statsVehicleType := Some vt\<rparr>,
        pathPolyline = None,
        navigationInstructions = None\<rparr>)"
  by (simp add: optimizeRouteWithGemini_def)

lemma twoStops_locations:
  "locations twoStops =
     [\<lparr>id' = ascii ''A'', name = DEPOT_NAME, coordinates = exampleCoords 0, address = None,
        isDepot = Some True, customerName = None, phoneNumber = None,
        zone = Some (ascii ''HQ''), status = None\<rparr>,
      \<lparr>id' = ascii ''B'', name = stopLabel 1, coordinates = exampleCoords 1, address = None,
        isDepot = Some False, customerName = None, phoneNumber = None,
        zone = Some ZONE_GENERAL, status = None\<rparr>]"
  by (simp add: twoStops_def emptyState_def initialState_def initialise_def tryLoad_def
      handleMapClick_def Let_def)

lemma twoStops_depot:
  "findDepot (locations twoStops) =
     Some \<lparr>id' = ascii ''A'', name = DEPOT_NAME, coordinates = exampleCoords 0, address = None,
        isDepot = Some True, customerName = None, phoneNumber = None,
        zone = Some (ascii ''HQ''), status = None\<rparr>"
  by (simp add: twoStops_locations findDepot_def truthy_def)

text \<open>
  Claim C1 at an order that holds the depot's id at a later position. The code tests
  that the order does not start with the depot's id, and then only handles the order
  that omits it: no branch moves the id to the front. For the depot A and the stop B,
  the reply with the order B, A is returned with the order B, A; its first element is
  not the depot's id.
\<close>

theorem normalize_leaves_depot_later:
  "findDepot (locations twoStops) = Some (locations twoStops ! 0)
   \<and> id' (locations twoStops ! 0) = ascii ''A''
   \<and> map_sum id optimizedOrder
       (optimizeRouteWithGemini v8Message (GeminiJson (exampleReply [ascii ''B'', ascii ''A'']))
          offline (locations twoStops) PICKUP_CLOSED)
     = Inr (Some [ascii ''B'', ascii ''A''])
   \<and> ascii ''B'' \<noteq> ascii ''A''"
proof -
  have two: "2 \<le> length (locations twoStops)"
    by (simp add: twoStops_locations)
  have stats: "reply_stats (exampleReply [ascii ''B'', ascii ''A'']) = Some exampleStats"
    by (simp add: exampleReply_def)
  have depot: "findDepot (locations twoStops) = Some (locations twoStops ! 0)"
    by (simp add: twoStops_depot) (simp add: twoStops_locations)
  have idA: "id' (locations twoStops ! 0) = ascii ''A''"
    by (simp add: twoStops_locations)
  have order: "map_sum id optimizedOrder
       (optimizeRouteWithGemini v8Message (GeminiJson (exampleReply [ascii ''B'', ascii ''A'']))
          offline (locations twoStops) PICKUP_CLOSED)
     = Inr (Some [ascii ''B'', ascii ''A''])"
    by (simp only: optimize_returns [OF two twoStops_depot stats])
      (simp add: attachRouteData_frame normalizeOrder_def exampleReply_def ascii_def)
  have ne: "ascii ''B'' \<noteq> ascii ''A''"
    by (simp add: ascii_def)
  show ?thesis
    using depot idA order ne by simp
qed

text \<open>The cases the normalisation does handle. An order that is not empty and omits
  the depot's id gets the id in front, and an order that starts with it is kept; the
  final order then starts with the depot's id.\<close>

lemma normalize_puts_depot_first:
  assumes "2 \<le> length locs"
    and "findDepot locs = Some depot"
    and "reply_stats reply = Some s"
    and "reply_optimizedOrder reply = Some ids"
    and "ids \<noteq> []"
    and "id' depot \<notin> set ids \<or> ids ! 0 = id' depot"
  shows "\<exists>result. optimizeRouteWithGemini em (GeminiJson reply) web locs vt = Inr result
     \<and> optimizedOrder result = Some (if ids ! 0 = id' depot then ids else id' depot # ids)
     \<and> map_option (\<lambda>order. order ! 0) (optimizedOrder result) = Some (id' depot)"
proof -
  have "normalizeOrder (id' depot) (Some ids)
      = Some (if ids ! 0 = id' depot then ids else id' depot # ids)"
    using assms(5,6) by (auto simp: normalizeOrder_def)
  then show ?thesis
    by (simp add: optimize_returns [OF assms(1,2,3)] attachRouteData_frame assms(4))
qed

text \<open>An order that is empty or absent is returned as it is.\<close>

lemma normalize_empty_or_absent:
  assumes "2 \<le> length locs"
    and "reply_stats reply = Some s"
    and "reply_optimizedOrder reply = None \<or> reply_optimizedOrder reply = Some []"
  shows "\<exists>result. optimizeRouteWithGemini em (GeminiJson reply) web locs vt = Inr result
     \<and> optimizedOrder result = reply_optimizedOrder reply"
proof -
  from findDepot_Some [OF assms(1)] obtain depot where depot: "findDepot locs = Some depot" ..
  have "normalizeOrder (id' depot) (reply_optimizedOrder reply) = reply_optimizedOrder reply"
    using assms(3) by (auto simp: normalizeOrder_def)
  then show ?thesis
    by (simp add: optimize_returns [OF assms(1) depot assms(2)] attachRouteData_frame)
qed

lemma routedStops_locations: "locations routedStops = locations twoStops"
  by (simp add: routedStops_def handleCalculateRoute_def split: sum.splits)

lemma routedStops_route:
  "optimizedRoute routedStops =
     Some \<lparr>optimizedOrder = Some [ascii ''A'', ascii ''B''], segments = [],
       stats = exampleStats\<lparr>statsVehicleType := Some PICKUP_CLOSED\<rparr>,
       pathPolyline = Some [], navigationInstructions = Some []\<rparr>"
proof -
  have two: "2 \<le> length (locations twoStops)"
    by (simp add: twoStops_locations)
  have stats: "reply_stats (exampleReply [ascii ''A'', ascii ''B'']) = Some exampleStats"
    by (simp add: exampleReply_def)
  have vt: "vehicleType twoStops = PICKUP_CLOSED"
    by (simp add: twoStops_def emptyState_def initialState_def handleMapClick_def Let_def)
  have road: "fetchRouteData offline ols = \<lparr>geometry = [], steps = []\<rparr>" for ols
    by (simp add: fetchRouteData_def OSRM_SERVERS_def offline_def)
  have "optimizeRouteWithGemini v8Message (GeminiJson (exampleReply [ascii ''A'', ascii ''B'']))
      offline (locations twoStops) PICKUP_CLOSED
    = Inr \<lparr>optimizedOrder = Some [ascii ''A'', ascii ''B''], segments = [],
       stats = exampleStats\<lparr>statsVehicleType := Some PICKUP_CLOSED\<rparr>,
       pathPolyline = Some [], navigationInstructions = Some []\<rparr>"
    by (simp only: optimize_returns [OF two twoStops_depot stats])
      (simp add: attachRouteData_def normalizeOrder_def exampleReply_def road
        twoStops_locations ascii_def)
  then show ?thesis
    using two by (simp add: routedStops_def handleCalculateRoute_def vt)
qed

lemma attachRouteData_unusable_exact:
  assumes "\<forall>u\<in>set OSRM_SERVERS. \<forall>c. \<not> usable (web u c)"
    and "pathPolyline result = None" and "navigationInstructions result = None"
  shows "pathPolyline (attachRouteData web locs result)
       = (if twoResolvable locs (optimizedOrder result) then Some [] else None)
     \<and> navigationInstructions (attachRouteData web locs result)
       = (if twoResolvable locs (optimizedOrder result) then Some [] else None)"
proof -
  have road: "fetchRouteData web ols = \<lparr>geometry = [], steps = []\<rparr>" for ols
    unfolding fetchRouteData_def using assms(1) by (intro tryServers_unusable) simp
  have short: "\<not> 2 \<le> length (List.map_filter f [])" for f :: "jsstring \<Rightarrow> DeliveryLocation option"
    by (simp add: List.map_filter_simps)
  show ?thesis
  proof (cases "optimizedOrder result")
    case None
    with assms(2,3) show ?thesis
      by (simp add: attachRouteData_def twoResolvable_def)
  next
    case (Some ids)
    show ?thesis
    proof (cases ids)
      case Nil
      with Some assms(2,3) show ?thesis
        by (simp add: attachRouteData_def twoResolvable_def List.map_filter_simps)
    next
      case (Cons i rest)
      with Some assms(2,3) show ?thesis
        by (auto simp: attachRouteData_def twoResolvable_def Let_def road)
    qed
  qed
qed

text \<open>
  Claim C8. With at least two stops, so that the call is made: when the call of the
  model or the parsing of its reply throws, or the reply has no \<open>stats\<close> for the
  normalisation to stamp (a TypeError, whatever the engine's message \<open>em\<close>), the route
  result in the state stays the one stored before and an error message is set. When
  the reply is good and no mirror of the routing service gives a usable answer, no
  error is set and a new route result is stored: its order is the normalised order of
  the reply, its segments are the reply's (none if absent), its stats are the reply's
  stamped with the vehicle, and its road geometry and its steps are both empty when
  the order has two stops of the registry, the case in which the service was asked,
  and both absent otherwise.
\<close>

theorem calculate_failures:
  assumes "2 \<le> length (locations st)"
    and "reply_stats bad = None"
    and "reply_stats good = Some s"
    and "\<forall>u\<in>set OSRM_SERVERS. \<forall>c. \<not> usable (web u c)"
  shows "optimizedRoute (handleCalculateRoute em (GeminiThrows m) web st) = optimizedRoute st
     \<and> error (handleCalculateRoute em (GeminiThrows m) web st)
         = Some (CALC_FAILED @ orElse m CALC_DEFAULT)
     \<and> orElse m CALC_DEFAULT \<noteq> []
     \<and> optimizedRoute (handleCalculateRoute em (GeminiJson bad) web st) = optimizedRoute st
     \<and> error (handleCalculateRoute em (GeminiJson bad) web st)
         = Some (CALC_FAILED @ orElse (Some em) CALC_DEFAULT)
     \<and> orElse (Some em) CALC_DEFAULT \<noteq> []
     \<and> (\<exists>depot result. findDepot (locations st) = Some depot
           \<and> optimizedRoute (handleCalculateRoute em (GeminiJson good) web st) = Some result
           \<and> error (handleCalculateRoute em (GeminiJson good) web st) = None
           \<and> optimizedOrder result = normalizeOrder (id' depot) (reply_optimizedOrder good)
           \<and> segments result = (case reply_segments good of None \<Rightarrow> [] | Some sg \<Rightarrow> sg)
           \<and> stats result = s\<lparr>statsVehicleType := Some (vehicleType st)\<rparr>
           \<and> pathPolyline result
               = (if twoResolvable (locations st) (optimizedOrder result) then Some [] else None)
           \<and> navigationInstructions result
               = (if twoResolvable (locations st) (optimizedOrder result) then Some [] else None))"
proof -
  have n: "\<not> length (locations st) < 2"
    using assms(1) by simp
  have a: "optimizedRoute (handleCalculateRoute em (GeminiThrows m) web st) = optimizedRoute st
     \<and> error (handleCalculateRoute em (GeminiThrows m) web st)
         = Some (CALC_FAILED @ orElse m CALC_DEFAULT)"
    by (simp add: handleCalculateRoute_def n optimize_throws [OF assms(1)])
  have dflt: "CALC_DEFAULT \<noteq> []"
    by (simp add: CALC_DEFAULT_def)
  have b: "orElse m CALC_DEFAULT \<noteq> []" and b': "orElse (Some em) CALC_DEFAULT \<noteq> []"
    using dflt by (rule orElse_default_nonempty)+
  have c: "optimizedRoute (handleCalculateRoute em (GeminiJson bad) web st) = optimizedRoute st
     \<and> error (handleCalculateRoute em (GeminiJson bad) web st)
         = Some (CALC_FAILED @ orElse (Some em) CALC_DEFAULT)"
    by (simp add: handleCalculateRoute_def n optimize_no_stats [OF assms(1,2)])
  from findDepot_Some [OF assms(1)] obtain depot
    where depot: "findDepot (locations st) = Some depot" ..
  let ?base = "\<lparr>optimizedOrder = normalizeOrder (id' depot) (reply_optimizedOrder good),
        segments = (case reply_segments good of None \<Rightarrow> [] | Some sg \<Rightarrow> sg),
        stats = s\<lparr>statsVehicleType := Some (vehicleType st)\<rparr>,
        pathPolyline = None,
        navigationInstructions = None\<rparr>"
  let ?result = "attachRouteData web (locations st) ?base"
  have stored: "optimizedRoute (handleCalculateRoute em (GeminiJson good) web st) = Some ?result
      \<and> error (handleCalculateRoute em (GeminiJson good) web st) = None"
    by (simp add: handleCalculateRoute_def n optimize_returns [OF assms(1) depot assms(3)])
  have frame: "optimizedOrder ?result = normalizeOrder (id' depot) (reply_optimizedOrder good)
      \<and> segments ?result = (case reply_segments good of None \<Rightarrow> [] | Some sg \<Rightarrow> sg)
      \<and> stats ?result = s\<lparr>statsVehicleType := Some (vehicleType st)\<rparr>"
    by (simp add: attachRouteData_frame)
  have "pathPolyline ?result
        = (if twoResolvable (locations st) (optimizedOrder ?base) then Some [] else None)
      \<and> navigationInstructions ?result
        = (if twoResolvable (locations st) (optimizedOrder ?base) then Some [] else None)"
    by (rule attachRouteData_unusable_exact [OF assms(4)]) simp_all
  then have road: "pathPolyline ?result
        = (if twoResolvable (locations st) (optimizedOrder ?result) then Some [] else None)
      \<and> navigationInstructions ?result
        = (if twoResolvable (locations st) (optimizedOrder ?result) then Some [] else None)"
    by (simp add: attachRouteData_frame)
  have d: "\<exists>depot result. findDepot (locations st) = Some depot
           \<and> optimizedRoute (handleCalculateRoute em (GeminiJson good) web st) = Some result
           \<and> error (handleCalculateRoute em (GeminiJson good) web st) = None
           \<and> optimizedOrder result = normalizeOrder (id' depot) (reply_optimizedOrder good)
           \<and> segments result = (case reply_segments good of None \<Rightarrow> [] | Some sg \<Rightarrow> sg)
           \<and> stats result = s\<lparr>statsVehicleType := Some (vehicleType st)\<rparr>
           \<and> pathPolyline result
               = (if twoResolvable (locations st) (optimizedOrder result) then Some [] else None)
           \<and> navigationInstructions result
               = (if twoResolvable (locations st) (optimizedOrder result) then Some [] else None)"
    using depot stored frame road by blast
  show ?thesis
    using a b b' c d by blast
qed

theorem calculate_failures_witness:
  "optimizedRoute routedStops \<noteq> None
   \<and> optimizedRoute (handleCalculateRoute v8Message (GeminiThrows None) offline routedStops)
       = optimizedRoute routedStops
   \<and> error (handleCalculateRoute v8Message (GeminiThrows None) offline routedStops)
       = Some (CALC_FAILED @ CALC_DEFAULT)
   \<and> optimizedRoute (handleCalculateRoute v8Message
         (GeminiJson \<lparr>reply_optimizedOrder = None, reply_segments = None, reply_stats = None\<rparr>)
         offline routedStops)
       = optimizedRoute routedStops
   \<and> error (handleCalculateRoute v8Message
         (GeminiJson \<lparr>reply_optimizedOrder = None, reply_segments = None, reply_stats = None\<rparr>)
         offline routedStops)
       = Some (CALC_FAILED @ v8Message)
   \<and> map_option optimizedOrder (optimizedRoute (handleCalculateRoute v8Message
         (GeminiJson (exampleReply [ascii ''A'', ascii ''B''])) offline routedStops))
       = Some (Some [ascii ''A'', ascii ''B''])"
proof -
  have h1: "2 \<le> length (locations routedStops)"
    by (simp add: routedStops_locations twoStops_locations)
  have h2: "reply_stats \<lparr>reply_optimizedOrder = None, reply_segments = None, reply_stats = None\<rparr>
      = None"
    by simp
  have h3: "reply_stats (exampleReply [ascii ''A'', ascii ''B'']) = Some exampleStats"
    by (simp add: exampleReply_def)
  have h4: "\<forall>u\<in>set OSRM_SERVERS. \<forall>c. \<not> usable (offline u c)"
    by (simp add: usable_def offline_def)
  have depot: "findDepot (locations routedStops) = Some d \<Longrightarrow> id' d = ascii ''A''" for d
    by (auto simp: routedStops_locations twoStops_depot)
  have order: "reply_optimizedOrder (exampleReply [ascii ''A'', ascii ''B''])
      = Some [ascii ''A'', ascii ''B'']"
    by (simp add: exampleReply_def)
  have norm: "normalizeOrder (ascii ''A'') (Some [ascii ''A'', ascii ''B''])
      = Some [ascii ''A'', ascii ''B'']"
    by (simp add: normalizeOrder_def)
  have v8: "orElse (Some v8Message) CALC_DEFAULT = v8Message"
    by (simp add: orElse_def v8Message_def ascii_def)
  have none: "orElse None CALC_DEFAULT = CALC_DEFAULT"
    by (simp add: orElse_def)
  note all = calculate_failures [OF h1 h2 h3 h4, of v8Message None]
  have t1: "optimizedRoute (handleCalculateRoute v8Message (GeminiThrows None) offline routedStops)
      = optimizedRoute routedStops"
    using all by (elim conjE)
  have t2: "error (handleCalculateRoute v8Message (GeminiThrows None) offline routedStops)
      = Some (CALC_FAILED @ CALC_DEFAULT)"
    using all by (elim conjE) (simp only: none)
  have t3: "optimizedRoute (handleCalculateRoute v8Message
         (GeminiJson \<lparr>reply_optimizedOrder = None, reply_segments = None, reply_stats = None\<rparr>)
         offline routedStops)
       = optimizedRoute routedStops"
    using all by (elim conjE)
  have t4: "error (handleCalculateRoute v8Message
         (GeminiJson \<lparr>reply_optimizedOrder = None, reply_segments = None, reply_stats = None\<rparr>)
         offline routedStops)
       = Some (CALC_FAILED @ v8Message)"
    using all by (elim conjE) (simp only: v8)
  from all obtain depot result
    where d: "findDepot (locations routedStops) = Some depot"
      and r: "optimizedRoute (handleCalculateRoute v8Message
         (GeminiJson (exampleReply [ascii ''A'', ascii ''B''])) offline routedStops) = Some result"
      and o: "optimizedOrder result = normalizeOrder (id' depot)
         (reply_optimizedOrder (exampleReply [ascii ''A'', ascii ''B'']))"
    by (elim conjE exE)
  from depot [OF d] o have "optimizedOrder result = Some [ascii ''A'', ascii ''B'']"
    by (simp only: order norm)
  with r have t5: "map_option optimizedOrder (optimizedRoute (handleCalculateRoute v8Message
         (GeminiJson (exampleReply [ascii ''A'', ascii ''B''])) offline routedStops))
       = Some (Some [ascii ''A'', ascii ''B''])"
    by simp
  have t0: "optimizedRoute routedStops \<noteq> None"
    by (simp add: routedStops_route)
  show ?thesis
    using t0 t1 t2 t3 t4 t5 by (intro conjI)
qed

section \<open>The order import\<close>

lemma importLoop_acc:
  "importLoop env isFirst orders i acc = acc @ importLoop env isFirst orders i []"
proof (induction orders arbitrary: i acc)
  case Nil
  then show ?case by simp
next
  case (Cons order orders)
  show ?case
  proof (cases "geocodeOrder env isFirst i order")
    case None
    then show ?thesis using Cons.IH [of "Suc i" acc] by simp
  next
    case (Some l)
    then show ?thesis
      using Cons.IH [of "Suc i" "acc @ [l]"] Cons.IH [of "Suc i" "[l]"] by simp
  qed
qed

lemma importLoop_Cons:
  "importLoop env isFirst (order # orders) i [] =
     (case geocodeOrder env isFirst i order of None \<Rightarrow> [] | Some l \<Rightarrow> [l])
     @ importLoop env isFirst orders (Suc i) []"
proof (cases "geocodeOrder env isFirst i order")
  case None
  then show ?thesis by simp
next
  case (Some l)
  then show ?thesis
    using importLoop_acc [of env isFirst orders "Suc i" "[l]"] by simp
qed

lemma geocodeOrder_None:
  "geocodeOrder env isFirst i order = None \<longleftrightarrow> geocode env i = GeocodeThrows"
  by (simp add: geocodeOrder_def Let_def split: geocode_reply.splits list.splits)

text \<open>An order whose request throws yields no stop; every other order yields one.\<close>

lemma importLoop_length:
  "length (importLoop env isFirst orders i [])
     = length (filter (\<lambda>j. geocode env j \<noteq> GeocodeThrows) [i..<i + length orders])"
proof (induction orders arbitrary: i)
  case Nil
  then show ?case by simp
next
  case (Cons order orders)
  have range: "[i..<i + length (order # orders)] = i # [Suc i..<Suc i + length orders]"
    using upt_conv_Cons [of i "i + length (order # orders)"] by simp
  show ?case
  proof (cases "geocodeOrder env isFirst i order")
    case None
    then have "geocode env i = GeocodeThrows"
      by (simp add: geocodeOrder_None)
    with None show ?thesis
      by (simp only: importLoop_Cons range) (simp add: Cons.IH)
  next
    case (Some l)
    then have "geocode env i \<noteq> GeocodeThrows"
      using geocodeOrder_None [of env isFirst i order] by simp
    with Some show ?thesis
      by (simp only: importLoop_Cons range) (simp add: Cons.IH)
  qed
qed

lemma importLoop_nth:
  assumes "\<forall>j<length orders. geocode env (i + j) \<noteq> GeocodeThrows"
  shows "length (importLoop env isFirst orders i []) = length orders
     \<and> (\<forall>j<length orders.
          geocodeOrder env isFirst (i + j) (orders ! j)
            = Some (importLoop env isFirst orders i [] ! j))"
  using assms
proof (induction orders arbitrary: i)
  case Nil
  then show ?case by simp
next
  case (Cons order orders)
  from Cons.prems have "geocode env (i + 0) \<noteq> GeocodeThrows"
    by (intro Cons.prems [rule_format]) simp
  then have "geocodeOrder env isFirst i order \<noteq> None"
    by (simp add: geocodeOrder_None)
  then obtain l where l: "geocodeOrder env isFirst i order = Some l"
    by auto
  have "\<forall>j<length orders. geocode env (Suc i + j) \<noteq> GeocodeThrows"
  proof (intro allI impI)
    fix j
    assume "j < length orders"
    then have "Suc j < length (order # orders)"
      by simp
    from Cons.prems [rule_format, OF this] show "geocode env (Suc i + j) \<noteq> GeocodeThrows"
      by simp
  qed
  from Cons.IH [OF this]
  have len: "length (importLoop env isFirst orders (Suc i) []) = length orders"
    and nth: "\<And>j. j < length orders \<Longrightarrow>
          geocodeOrder env isFirst (Suc i + j) (orders ! j)
            = Some (importLoop env isFirst orders (Suc i) [] ! j)"
    by simp_all
  have whole: "importLoop env isFirst (order # orders) i []
      = l # importLoop env isFirst orders (Suc i) []"
    by (simp only: importLoop_Cons l) simp
  show ?case
  proof (intro conjI allI impI)
    show "length (importLoop env isFirst (order # orders) i []) = length (order # orders)"
      by (simp only: whole) (simp add: len)
  next
    fix j
    assume j: "j < length (order # orders)"
    show "geocodeOrder env isFirst (i + j) ((order # orders) ! j)
        = Some (importLoop env isFirst (order # orders) i [] ! j)"
    proof (cases j)
      case 0
      then show ?thesis by (simp only: whole) (simp add: l)
    next
      case (Suc j')
      with j have "j' < length orders"
        by simp
      from nth [OF this] Suc show ?thesis
        by (simp only: whole) simp
    qed
  qed
qed

lemma handleImportOrders_locations:
  "orders \<noteq> [] \<Longrightarrow>
   locations (handleImportOrders (ParsedOrders orders) env st)
     = locations st @ importLoop env (length (locations st) = 0) orders 0 []"
  by (simp add: handleImportOrders_def Let_def)

lemma emptyState_fields:
  "locations emptyState = []" "optimizedRoute emptyState = None" "error emptyState = None"
  by (simp_all add: emptyState_def initialState_NoItem)

lemma handleImportOrders_route:
  "optimizedRoute (handleImportOrders parsed env st) = optimizedRoute st"
  by (simp add: handleImportOrders_def Let_def split: parse_reply.splits)

lemma geocodeOrder_flag:
  "geocodeOrder env isFirst i order = Some l \<Longrightarrow> isDepot l = Some (isFirst \<and> i = 0)"
  by (auto simp: geocodeOrder_def Let_def split: geocode_reply.splits list.splits)

lemma importLoop_later_unflagged:
  "0 < i \<Longrightarrow> \<forall>l\<in>set (importLoop env isFirst orders i []). \<not> truthy (isDepot l)"
proof (induction orders arbitrary: i)
  case Nil
  then show ?case by simp
next
  case (Cons order orders)
  have rest: "\<forall>l\<in>set (importLoop env isFirst orders (Suc i) []). \<not> truthy (isDepot l)"
    by (rule Cons.IH) simp
  show ?case
  proof (cases "geocodeOrder env isFirst i order")
    case None
    then show ?thesis
      using rest by (simp only: importLoop_Cons) simp
  next
    case (Some l)
    from geocodeOrder_flag [OF this] Cons.prems have "\<not> truthy (isDepot l)"
      by (simp add: truthy_def)
    with Some rest show ?thesis
      by (simp only: importLoop_Cons) simp
  qed
qed

lemma importLoop_unflagged:
  "\<not> isFirst \<Longrightarrow> \<forall>l\<in>set (importLoop env isFirst orders i []). \<not> truthy (isDepot l)"
proof (induction orders arbitrary: i)
  case Nil
  then show ?case by simp
next
  case (Cons order orders)
  have rest: "\<forall>l\<in>set (importLoop env isFirst orders (Suc i) []). \<not> truthy (isDepot l)"
    using Cons.prems by (rule Cons.IH)
  show ?case
  proof (cases "geocodeOrder env isFirst i order")
    case None
    then show ?thesis
      using rest by (simp only: importLoop_Cons) simp
  next
    case (Some l)
    from geocodeOrder_flag [OF this] Cons.prems have "\<not> truthy (isDepot l)"
      by (simp add: truthy_def)
    with Some rest show ?thesis
      by (simp only: importLoop_Cons) simp
  qed
qed

lemma import_depotOnlyFirst:
  assumes "depotOnlyFirst (locations st)"
  shows "depotOnlyFirst (locations (handleImportOrders parsed env st))"
proof (cases parsed)
  case (ParseThrows m)
  with assms show ?thesis
    by (simp add: handleImportOrders_def)
next
  case (ParsedOrders orders)
  show ?thesis
  proof (cases orders)
    case Nil
    with ParsedOrders assms show ?thesis
      by (simp add: handleImportOrders_def)
  next
    case (Cons order rest)
    let ?isFirst = "length (locations st) = 0"
    have new: "locations (handleImportOrders parsed env st)
        = locations st @ importLoop env ?isFirst (order # rest) 0 []"
      unfolding ParsedOrders Cons by (rule handleImportOrders_locations) simp
    have later: "\<forall>l\<in>set (importLoop env ?isFirst rest (Suc 0) []). \<not> truthy (isDepot l)"
      by (rule importLoop_later_unflagged) simp
    show ?thesis
    proof (cases "locations st")
      case Nil
      have "set (tl (importLoop env ?isFirst (order # rest) 0 []))
          \<subseteq> set (importLoop env ?isFirst rest (Suc 0) [])"
      proof (cases "geocodeOrder env ?isFirst 0 order")
        case None
        then have "importLoop env ?isFirst (order # rest) 0 []
            = importLoop env ?isFirst rest (Suc 0) []"
          by (simp only: importLoop_Cons) simp
        then show ?thesis
          by (cases "importLoop env ?isFirst rest (Suc 0) []") auto
      next
        case (Some l)
        then have "importLoop env ?isFirst (order # rest) 0 []
            = l # importLoop env ?isFirst rest (Suc 0) []"
          by (simp only: importLoop_Cons) simp
        then show ?thesis by simp
      qed
      with later have "\<forall>l\<in>set (tl (importLoop env ?isFirst (order # rest) 0 [])).
          \<not> truthy (isDepot l)"
        by blast
      then show ?thesis
        unfolding new by (simp add: Nil depotOnlyFirst_def list_all_iff)
    next
      case (Cons l0 ls)
      then have "\<not> ?isFirst"
        by simp
      then have "\<forall>l\<in>set (importLoop env ?isFirst (order # rest) 0 []). \<not> truthy (isDepot l)"
        by (rule importLoop_unflagged)
      with assms show ?thesis
        unfolding new by (auto simp: Cons depotOnlyFirst_def list_all_iff)
    qed
  qed
qed

text \<open>
  Claim C3 at a transport failure. The \<open>catch\<close> around the geocoding request only
  logs, where the branch for an address without a match pushes a placeholder stop: the
  order whose request throws is dropped. Of two orders whose second request throws,
  one stop is appended, the first order's, and no unresolved one.
\<close>

theorem import_drops_thrown_order:
  "map zone (locations (handleImportOrders (ParsedOrders [exampleOrder 0, exampleOrder 1])
      flakyEnv emptyState)) = [Some (ascii ''Bang Na'')]"
  by (simp add: handleImportOrders_def emptyState_fields geocodeOrder_def flakyEnv_def
      exampleEnv_def exampleOrder_def)

text \<open>
  The import when no request throws. When, of the \<open>N\<close> orders of an import, the address
  of exactly one (order \<open>k\<close>) finds no match and every other address is found, the
  import appends \<open>N\<close> stops. The stop of order \<open>k\<close> has the customer's name (or
  "Unknown") followed by the unresolved marker, the zone "Unresolved", and a coordinate
  at least the reference point and less than 0.01 degrees above it in latitude and in
  longitude (the random factors lying in [0, 1)); every other stop has the coordinate
  found for its address and its order's own name and zone. In general an import
  appends as many stops as it has orders whose request does not throw.
\<close>

lemma import_one_unresolved:
  assumes "orders \<noteq> []"
    and "k < length orders"
    and "geocode env k = GeocodeData []"
    and "\<forall>j<length orders. j \<noteq> k \<longrightarrow> (\<exists>d ds. geocode env j = GeocodeData (d # ds))"
    and "0 \<le> fst (random env k) \<and> fst (random env k) < 1"
    and "0 \<le> snd (random env k) \<and> snd (random env k) < 1"
  shows "\<exists>new. locations (handleImportOrders (ParsedOrders orders) env st) = locations st @ new
     \<and> length new = length orders
     \<and> name (new ! k)
         = orElse (order_customerName (orders ! k)) (ascii ''Unknown'') @ UNRESOLVED_MARK
     \<and> zone (new ! k) = Some (ascii ''Unresolved'')
     \<and> 137563 / 10000 \<le> lat (coordinates (new ! k))
     \<and> lat (coordinates (new ! k)) < 137563 / 10000 + 1 / 100
     \<and> 1005018 / 10000 \<le> lng (coordinates (new ! k))
     \<and> lng (coordinates (new ! k)) < 1005018 / 10000 + 1 / 100
     \<and> (\<forall>j<length orders. j \<noteq> k \<longrightarrow>
           (\<exists>ds. geocode env j = GeocodeData (coordinates (new ! j) # ds))
           \<and> name (new ! j) = orElse (order_customerName (orders ! j)) (orderLabel (j + 1))
           \<and> zone (new ! j) = order_zone (orders ! j))
     \<and> length (locations (handleImportOrders (ParsedOrders orders) env' st))
         = length (locations st)
           + length (filter (\<lambda>j. geocode env' j \<noteq> GeocodeThrows) [0..<length orders])"
proof -
  let ?isFirst = "length (locations st) = 0"
  let ?new = "importLoop env ?isFirst orders 0 []"
  have nothrow: "\<forall>j<length orders. geocode env (0 + j) \<noteq> GeocodeThrows"
  proof (intro allI impI)
    fix j
    assume "j < length orders"
    then show "geocode env (0 + j) \<noteq> GeocodeThrows"
      using assms(3,4) by (cases "j = k") auto
  qed
  from importLoop_nth [OF nothrow, of ?isFirst]
  have len: "length ?new = length orders"
    and nth: "\<And>j. j < length orders \<Longrightarrow>
        geocodeOrder env ?isFirst j (orders ! j) = Some (?new ! j)"
    by simp_all
  have "geocodeOrder env ?isFirst k (orders ! k) = Some (?new ! k)"
    using assms(2) by (rule nth)
  then have at_k: "?new ! k =
      \<lparr>id' = generateId env k,
       name = orElse (order_customerName (orders ! k)) (ascii ''Unknown'') @ UNRESOLVED_MARK,
       coordinates = \<lparr>lat = 137563 / 10000 + fst (random env k) * (1 / 100),
                      lng = 1005018 / 10000 + snd (random env k) * (1 / 100)\<rparr>,
       address = order_address (orders ! k),
       isDepot = Some (?isFirst \<and> k = 0),
       customerName = order_customerName (orders ! k),
       phoneNumber = order_phoneNumber (orders ! k),
       zone = Some (ascii ''Unresolved''),
       status = None\<rparr>"
    by (simp add: geocodeOrder_def assms(3))
  have others: "(\<exists>ds. geocode env j = GeocodeData (coordinates (?new ! j) # ds))
      \<and> name (?new ! j) = orElse (order_customerName (orders ! j)) (orderLabel (j + 1))
      \<and> zone (?new ! j) = order_zone (orders ! j)"
    if j: "j < length orders" "j \<noteq> k" for j
  proof -
    from assms(4) j obtain d ds where hit: "geocode env j = GeocodeData (d # ds)"
      by blast
    have "geocodeOrder env ?isFirst j (orders ! j) = Some (?new ! j)"
      using j(1) by (rule nth)
    then have "?new ! j =
      \<lparr>id' = generateId env j,
       name = orElse (order_customerName (orders ! j)) (orderLabel (j + 1)),
       coordinates = \<lparr>lat = lat d, lng = lng d\<rparr>,
       address = order_address (orders ! j),
       isDepot = Some (?isFirst \<and> j = 0),
       customerName = order_customerName (orders ! j),
       phoneNumber = order_phoneNumber (orders ! j),
       zone = order_zone (orders ! j),
       status = None\<rparr>"
      by (simp add: geocodeOrder_def hit)
    then show ?thesis
      by (simp add: hit)
  qed
  have count: "length (locations (handleImportOrders (ParsedOrders orders) env' st))
      = length (locations st)
        + length (filter (\<lambda>j. geocode env' j \<noteq> GeocodeThrows) [0..<length orders])"
    using importLoop_length [of env' ?isFirst orders 0]
    by (simp add: handleImportOrders_locations [OF assms(1)])
  have lat_k: "137563 / 10000 \<le> lat (coordinates (?new ! k))
      \<and> lat (coordinates (?new ! k)) < 137563 / 10000 + 1 / 100"
    unfolding at_k using assms(5) by simp
  have lng_k: "1005018 / 10000 \<le> lng (coordinates (?new ! k))
      \<and> lng (coordinates (?new ! k)) < 1005018 / 10000 + 1 / 100"
    unfolding at_k using assms(6) by simp
  have name_k: "name (?new ! k)
      = orElse (order_customerName (orders ! k)) (ascii ''Unknown'') @ UNRESOLVED_MARK"
    and zone_k: "zone (?new ! k) = Some (ascii ''Unresolved'')"
    unfolding at_k by simp_all
  have "locations (handleImportOrders (ParsedOrders orders) env st) = locations st @ ?new"
    by (rule handleImportOrders_locations [OF assms(1)])
  with len name_k zone_k lat_k lng_k others count show ?thesis
    by blast
qed

lemma import_one_unresolved_example:
  "length (locations (handleImportOrders (ParsedOrders [exampleOrder 0, exampleOrder 1])
      unresolvedEnv emptyState)) = 2
   \<and> zone (locations (handleImportOrders (ParsedOrders [exampleOrder 0, exampleOrder 1])
      unresolvedEnv emptyState) ! 1) = Some (ascii ''Unresolved'')
   \<and> lat (coordinates (locations (handleImportOrders
      (ParsedOrders [exampleOrder 0, exampleOrder 1]) unresolvedEnv emptyState) ! 1))
       < 137663 / 10000"
proof -
  let ?orders = "[exampleOrder 0, exampleOrder 1]"
  have h1: "?orders \<noteq> []"
    by simp
  have h2: "1 < length ?orders"
    by simp
  have h3: "geocode unresolvedEnv 1 = GeocodeData []"
    by (simp add: unresolvedEnv_def)
  have h4: "\<forall>j<length ?orders. j \<noteq> 1 \<longrightarrow> (\<exists>d ds. geocode unresolvedEnv j = GeocodeData (d # ds))"
    by (simp add: unresolvedEnv_def)
  have h5: "0 \<le> fst (random unresolvedEnv 1) \<and> fst (random unresolvedEnv 1) < 1"
    by (simp add: unresolvedEnv_def exampleEnv_def)
  have h6: "0 \<le> snd (random unresolvedEnv 1) \<and> snd (random unresolvedEnv 1) < 1"
    by (simp add: unresolvedEnv_def exampleEnv_def)
  show ?thesis
    using import_one_unresolved [OF h1 h2 h3 h4 h5 h6, of emptyState unresolvedEnv]
    by (auto simp: emptyState_fields)
qed

section \<open>The route result and the stop limit across the handlers\<close>

lemma mapClick_clears_route:
  "length (locations st) < 30 \<Longrightarrow> optimizedRoute (handleMapClick newId coords st) = None"
  by (simp add: handleMapClick_def Let_def)

lemma remove_clears_route: "optimizedRoute (handleRemoveLocation rid st) = None"
  by (simp add: handleRemoveLocation_def)

lemma reset_clears_route: "optimizedRoute (handleReset True st) = None"
  by (simp add: handleReset_def)

lemma mapClick_at_limit:
  "30 \<le> length (locations st) \<Longrightarrow>
   locations (handleMapClick newId coords st) = locations st
   \<and> error (handleMapClick newId coords st) = Some LIMIT_MESSAGE"
  by (simp add: handleMapClick_def)

lemma mapClick_within_limit:
  "length (locations st) \<le> 30 \<Longrightarrow> length (locations (handleMapClick newId coords st)) \<le> 30"
  by (simp add: handleMapClick_def Let_def)

lemma remove_within_limit:
  "length (locations (handleRemoveLocation rid st)) \<le> length (locations st)"
  by (simp add: handleRemoveLocation_def removeLocation_length)

text \<open>
  Claim C2 at the order import. The handler appends the imported stops and never
  touches the route result: importing one order into the state of depot A and stop B
  with a computed route gives three stops and the same route result as before, not
  none. (A map click below the limit, a removal and a confirmed reset do clear it:
  \<open>mapClick_clears_route\<close>, \<open>remove_clears_route\<close>, \<open>reset_clears_route\<close>.)
\<close>

theorem import_keeps_stale_route:
  "length (locations routedStops) = 2
   \<and> length (locations (handleImportOrders (ParsedOrders [exampleOrder 0]) exampleEnv
        routedStops)) = 3
   \<and> optimizedRoute (handleImportOrders (ParsedOrders [exampleOrder 0]) exampleEnv routedStops)
       = optimizedRoute routedStops
   \<and> optimizedRoute routedStops \<noteq> None"
proof -
  have "length (importLoop exampleEnv False [exampleOrder 0] 0 []) = 1"
    by (simp only: importLoop_length) (simp add: exampleEnv_def)
  then show ?thesis
    by (simp add: handleImportOrders_route handleImportOrders_locations routedStops_locations
        twoStops_locations routedStops_route)
qed

text \<open>
  Claim C4 at the order import. The handler appends every stop it has built, with no
  test of the count: importing thirty-one orders, each address found, into the empty
  state gives thirty-one stops and no error. (A map click at thirty stops or more
  leaves the list as it is and sets the limit message: \<open>mapClick_at_limit\<close>.)
\<close>

theorem import_exceeds_limit:
  "length (locations (handleImportOrders (ParsedOrders (map exampleOrder [0..<31])) exampleEnv
      emptyState)) = 31
   \<and> error (handleImportOrders (ParsedOrders (map exampleOrder [0..<31])) exampleEnv emptyState)
       = None"
proof -
  have ne: "map exampleOrder [0..<31] \<noteq> []"
    by (simp add: upt_rec [of 0])
  have "length (importLoop exampleEnv True (map exampleOrder [0..<31]) 0 []) = 31"
    by (simp only: importLoop_length) (simp add: exampleEnv_def)
  then have "length (locations (handleImportOrders (ParsedOrders (map exampleOrder [0..<31]))
      exampleEnv emptyState)) = 31"
    by (simp add: handleImportOrders_locations [OF ne] emptyState_fields)
  moreover have "error (handleImportOrders (ParsedOrders (map exampleOrder [0..<31])) exampleEnv
      emptyState) = None"
    using ne by (simp add: handleImportOrders_def Let_def emptyState_fields)
  ultimately show ?thesis
    by simp
qed

end
